theory Spec2Isabelle
  imports Main "HOL-Library.Sublist"
begin

section \<open>Strings\<close>

text \<open>
  A JavaScript string is a sequence of UTF-16 code units. The code below looks at single
  code units only (separators, character classes of regular expressions, line
  terminators), so a string is modelled as the list of its code units, each a natural
  number. \<open>js\<close> turns an ASCII literal into that list.
\<close>

type_synonym jsstring = "nat list"

definition js :: "string \<Rightarrow> jsstring" where
  "js s = map of_char s"

text \<open>\<open>String.prototype.startsWith\<close>, \<open>endsWith\<close> and \<open>includes\<close>.\<close>

definition startsWith :: "jsstring \<Rightarrow> jsstring \<Rightarrow> bool" where
  "startsWith s p = prefix p s"

definition endsWith :: "jsstring \<Rightarrow> jsstring \<Rightarrow> bool" where
  "endsWith s p = suffix p s"

fun includes_str :: "jsstring \<Rightarrow> jsstring \<Rightarrow> bool" where
  "includes_str [] p = (p = [])"
| "includes_str (c # cs) p = (prefix p (c # cs) \<or> includes_str cs p)"

section \<open>The path library and the file system\<close>

text \<open>
  \<open>resolve\<close> and \<open>join\<close> are Node's POSIX \<open>path.resolve\<close> and \<open>path.join\<close>. Node
  normalises a path one segment at a time: an empty segment and \<open>.\<close> are dropped, \<open>..\<close>
  removes the segment before it, and above the root \<open>..\<close> is dropped (absolute path) or
  kept (relative path). The working directory of the process is a parameter.
\<close>

fun splitOn :: "nat \<Rightarrow> jsstring \<Rightarrow> jsstring list" where
  "splitOn sep [] = [[]]"
| "splitOn sep (c # cs) =
     (if c = sep then [] # splitOn sep cs
      else (case splitOn sep cs of
              [] \<Rightarrow> [[c]]
            | w # ws \<Rightarrow> (c # w) # ws))"

fun joinWith :: "nat \<Rightarrow> jsstring list \<Rightarrow> jsstring" where
  "joinWith sep [] = []"
| "joinWith sep [s] = s"
| "joinWith sep (s # t # ss) = s @ sep # joinWith sep (t # ss)"

definition slash :: nat where
  "slash = 47"

definition dotdot :: jsstring where
  "dotdot = [46, 46]"

text \<open>The stack \<open>acc\<close> holds the segments kept so far, the last one first.\<close>

fun normalizeSegments :: "bool \<Rightarrow> jsstring list \<Rightarrow> jsstring list \<Rightarrow> jsstring list" where
  "normalizeSegments allowAboveRoot acc [] = rev acc"
| "normalizeSegments allowAboveRoot acc (s # ss) =
     (if s = [] \<or> s = [46] then normalizeSegments allowAboveRoot acc ss
      else if s = dotdot then
        (case acc of
           t # ts \<Rightarrow>
             if t \<noteq> dotdot then normalizeSegments allowAboveRoot ts ss
             else if allowAboveRoot then normalizeSegments allowAboveRoot (s # acc) ss
             else normalizeSegments allowAboveRoot acc ss
         | [] \<Rightarrow>
             if allowAboveRoot then normalizeSegments allowAboveRoot [s] ss
             else normalizeSegments allowAboveRoot [] ss)
      else normalizeSegments allowAboveRoot (s # acc) ss)"

definition normalizeString :: "jsstring \<Rightarrow> bool \<Rightarrow> jsstring" where
  "normalizeString path allowAboveRoot =
     joinWith slash (normalizeSegments allowAboveRoot [] (splitOn slash path))"

text \<open>
  \<open>resolve\<close> walks its arguments from the right, then the working directory, until the
  path built so far is absolute; empty arguments are skipped.
\<close>

fun resolveArgs :: "jsstring list \<Rightarrow> jsstring \<Rightarrow> bool \<Rightarrow> jsstring \<times> bool" where
  "resolveArgs [] resolvedPath resolvedAbsolute = (resolvedPath, resolvedAbsolute)"
| "resolveArgs (p # ps) resolvedPath resolvedAbsolute =
     (if resolvedAbsolute then (resolvedPath, resolvedAbsolute)
      else if p = [] then resolveArgs ps resolvedPath resolvedAbsolute
      else resolveArgs ps (p @ slash # resolvedPath) (hd p = slash))"

definition resolve :: "jsstring \<Rightarrow> jsstring list \<Rightarrow> jsstring" where
  "resolve cwd args =
     (case resolveArgs (rev args @ [cwd]) [] False of
        (resolvedPath, resolvedAbsolute) \<Rightarrow>
          let n = normalizeString resolvedPath (\<not> resolvedAbsolute)
          in if resolvedAbsolute then slash # n
             else if n \<noteq> [] then n else [46])"

definition normalize :: "jsstring \<Rightarrow> jsstring" where
  "normalize path =
     (if path = [] then [46]
      else
        let isAbsolute = (hd path = slash);
            trailingSeparator = (last path = slash);
            n = normalizeString path (\<not> isAbsolute)
        in if n = [] then (if isAbsolute then [slash]
                           else if trailingSeparator then [46, slash] else [46])
           else
             let n' = (if trailingSeparator then n @ [slash] else n)
             in if isAbsolute then slash # n' else n')"

definition join :: "jsstring list \<Rightarrow> jsstring" where
  "join args =
     (case filter (\<lambda>arg. arg \<noteq> []) args of
        [] \<Rightarrow> [46]
      | parts \<Rightarrow> normalize (joinWith slash parts))"

text \<open>
  The file system as \<open>existsSync\<close> and \<open>statSync\<close> see it: what, if anything, a path
  names.
\<close>

datatype fsnode = File | Directory

type_synonym filesystem = "jsstring \<Rightarrow> fsnode option"

definition existsSync :: "filesystem \<Rightarrow> jsstring \<Rightarrow> bool" where
  "existsSync fs p = (fs p \<noteq> None)"

definition isDirectory :: "filesystem \<Rightarrow> jsstring \<Rightarrow> bool" where
  "isDirectory fs p = (fs p = Some Directory)"

section \<open>Errors\<close>

text \<open>
  Every \<open>throw new Error(...)\<close> of the source is one constructor, carrying the values the
  message interpolates. \<open>External\<close> is a failure raised by a collaborator outside the
  modelled code (simulator control, a stream).
\<close>

datatype error =
    AccessDenied jsstring jsstring
  | DirectoryDoesNotExist jsstring
  | NotADirectory jsstring
  | MissingPubspec jsstring
  | SessionNotFound jsstring
  | AlreadyRunning
  | TargetOutsideProject jsstring
  | TargetDoesNotExist jsstring
  | TargetNotDart jsstring
  | InvalidFlavor jsstring
  | InvalidDartDefine jsstring
  | InvalidFlutterArgument jsstring
  | FromIndexNegative int
  | LimitNotPositive int
  | External jsstring

text \<open>The spec's error kind invalid-argument covers these throw sites.\<close>

fun isInvalidArgument :: "error \<Rightarrow> bool" where
  "isInvalidArgument (InvalidDartDefine a) = True"
| "isInvalidArgument (InvalidFlutterArgument a) = True"
| "isInvalidArgument (FromIndexNegative i) = True"
| "isInvalidArgument (LimitNotPositive i) = True"
| "isInvalidArgument e = False"

section \<open>LogBuffer\<close>

text \<open>
  \<open>timestamp\<close> is the clock reading of \<open>new Date()\<close>, passed in by the caller of the
  model. Indices and lengths are JavaScript numbers holding non-negative integers; they
  are exact below \<open>2^53\<close> and modelled as \<open>nat\<close>. \<open>maxLines\<close> is whatever number the
  constructor was given, an \<open>int\<close>.
\<close>

record LogEntry =
  line :: jsstring
  timestamp :: nat
  index :: nat

record LogBuffer =
  logs :: "LogEntry list"
  currentIndex :: nat
  maxLines :: int

definition newLogBuffer :: "int \<Rightarrow> LogBuffer" where
  "newLogBuffer n = \<lparr>logs = [], currentIndex = 0, maxLines = n\<rparr>"

definition append_entry :: "nat \<Rightarrow> jsstring \<Rightarrow> LogBuffer \<Rightarrow> LogBuffer" where
  "append_entry now ln b =
     (let entry = \<lparr>line = ln, timestamp = now, index = currentIndex b\<rparr>;
          b1 = b\<lparr>currentIndex := currentIndex b + 1\<rparr>;
          b2 = b1\<lparr>logs := logs b1 @ [entry]\<rparr>
      in if int (length (logs b2)) > maxLines b2 then b2\<lparr>logs := tl (logs b2)\<rparr> else b2)"

text \<open>
  \<open>getLogs(fromIndex?, limit = 100)\<close>: an omitted argument is \<open>None\<close>; an omitted limit
  takes the default.
\<close>

definition getLogs :: "int option \<Rightarrow> int option \<Rightarrow> LogBuffer \<Rightarrow> error + LogEntry list" where
  "getLogs fromIndex limitArg b =
     (let limit = (case limitArg of None \<Rightarrow> 100 | Some l \<Rightarrow> l) in
      if fromIndex \<noteq> None \<and> the fromIndex < 0 then Inl (FromIndexNegative (the fromIndex))
      else if limit \<le> 0 then Inl (LimitNotPositive limit)
      else
        let filtered = (case fromIndex of
                          None \<Rightarrow> logs b
                        | Some f \<Rightarrow> filter (\<lambda>entry. int (index entry) \<ge> f) (logs b))
        in Inr (take (nat limit) filtered))"

definition getNextIndex :: "LogBuffer \<Rightarrow> nat" where
  "getNextIndex b = currentIndex b"

definition getTotalLines :: "LogBuffer \<Rightarrow> nat" where
  "getTotalLines b = length (logs b)"

definition clear :: "LogBuffer \<Rightarrow> LogBuffer" where
  "clear b = b\<lparr>logs := [], currentIndex := 0\<rparr>"

definition getRecentLines :: "int \<Rightarrow> LogBuffer \<Rightarrow> jsstring list" where
  "getRecentLines count b =
     (let start = max 0 (int (length (logs b)) - count)
      in map line (drop (nat start) (logs b)))"

text \<open>Appending a sequence of lines, each with the clock reading at its append.\<close>

definition appendLines :: "(nat \<times> jsstring) list \<Rightarrow> LogBuffer \<Rightarrow> LogBuffer" where
  "appendLines tls b = fold (\<lambda>(now, ln). append_entry now ln) tls b"

text \<open>The entries that lines appended from index \<open>k\<close> on receive.\<close>

definition entriesFrom :: "nat \<Rightarrow> (nat \<times> jsstring) list \<Rightarrow> LogEntry list" where
  "entriesFrom k tls =
     map (\<lambda>(i, (now, ln)). \<lparr>line = ln, timestamp = now, index = i\<rparr>)
         (zip [k ..< k + length tls] tls)"

text \<open>
  A run of the buffer's operations. After each append, the entry the buffer has just
  stored is its newest one, the last of \<open>logs\<close>; a buffer whose capacity is below one
  stores none. \<open>appendedEntries\<close> reads these entries off the buffer, in the order of the
  appends, and \<open>assignedIndices\<close> reads their \<open>index\<close> fields.
\<close>

datatype bufop =
    Append nat jsstring
  | GetLogs "int option" "int option"
  | RecentLines int
  | Clear

fun applyOp :: "bufop \<Rightarrow> LogBuffer \<Rightarrow> LogBuffer" where
  "applyOp (Append now ln) b = append_entry now ln b"
| "applyOp (GetLogs f l) b = b"
| "applyOp (RecentLines n) b = b"
| "applyOp Clear b = clear b"

definition applyOps :: "bufop list \<Rightarrow> LogBuffer \<Rightarrow> LogBuffer" where
  "applyOps ops b = fold applyOp ops b"

definition lastStored :: "LogBuffer \<Rightarrow> LogEntry list" where
  "lastStored b = (case logs b of [] \<Rightarrow> [] | e # es \<Rightarrow> [last (e # es)])"

fun appendedEntries :: "bufop list \<Rightarrow> LogBuffer \<Rightarrow> LogEntry list" where
  "appendedEntries [] b = []"
| "appendedEntries (Append now ln # ops) b =
     lastStored (applyOp (Append now ln) b)
     @ appendedEntries ops (applyOp (Append now ln) b)"
| "appendedEntries (op # ops) b = appendedEntries ops (applyOp op b)"

definition assignedIndices :: "bufop list \<Rightarrow> LogBuffer \<Rightarrow> nat list" where
  "assignedIndices ops b = map index (appendedEntries ops b)"

fun isAppend :: "bufop \<Rightarrow> bool" where
  "isAppend (Append now ln) = True"
| "isAppend op = False"

text \<open>The clock readings and lines that the appends of a run are called with.\<close>

fun appendArgs :: "bufop list \<Rightarrow> (nat \<times> jsstring) list" where
  "appendArgs [] = []"
| "appendArgs (Append now ln # ops) = (now, ln) # appendArgs ops"
| "appendArgs (op # ops) = appendArgs ops"

text \<open>
  The entries a buffer holds carry consecutive indices, the newest one just below the
  index counter.
\<close>

definition consecutive :: "LogBuffer \<Rightarrow> bool" where
  "consecutive b =
     (length (logs b) \<le> currentIndex b \<and>
      map index (logs b) = [currentIndex b - length (logs b) ..< currentIndex b])"


section \<open>FlutterProcessManager\<close>

datatype level = DEBUG | INFO | WARN | ERROR

text \<open>A call of the logger: its level and its message literal.\<close>

type_synonym logline = "level \<times> string"

datatype status = Starting | Running | HotReloading | Stopped | Failed

record FlutterProcess =
  pid :: nat
  status :: status
  startedAt :: nat
  stoppedAt :: "nat option"
  exitCode :: "int option"

record FlutterRunOptions =
  worktreePath :: jsstring
  deviceId :: jsstring
  target :: "jsstring option"
  flavor :: "jsstring option"
  additionalArgs :: "jsstring list option"

text \<open>
  The handle \<open>spawnStreaming\<close> returns, with what the manager has done to it: the command
  it was spawned with, the process id the system reported (if any), what was written to
  its input stream, whether that stream was ended, and the signals sent.
\<close>

record SpawnedProcess =
  command :: jsstring
  args :: "jsstring list"
  cwd :: jsstring
  processPid :: "nat option"
  stdinWritten :: "jsstring list"
  stdinEnded :: bool
  signalsSent :: "jsstring list"

text \<open>
  A subscriber is a callback; the set holds callbacks by identity. The model gives each
  an identity and the error it throws on a line, if it throws. Callbacks do not call
  back into the manager.
\<close>

record Subscriber =
  subscriberId :: nat
  throwsOn :: "jsstring \<Rightarrow> jsstring option"

text \<open>
  The manager's fields, followed by what it has done to the world: the hot-reload
  timeouts set and not yet fired, the calls of \<open>spawnStreaming\<close>, the calls of subscriber
  callbacks and the logger's output.
\<close>

record FlutterProcessManager =
  process :: "SpawnedProcess option"
  flutterProcess :: "FlutterProcess option"
  logBuffer :: LogBuffer
  logSubscribers :: "Subscriber list"
  pendingTimers :: nat
  spawnCalls :: "(jsstring \<times> jsstring list \<times> jsstring) list"
  delivered :: "(nat \<times> jsstring) list"
  logged :: "logline list"

definition newFlutterProcessManager :: "int \<Rightarrow> FlutterProcessManager" where
  "newFlutterProcessManager maxLogLines =
     \<lparr>process = None, flutterProcess = None, logBuffer = newLogBuffer maxLogLines,
      logSubscribers = [], pendingTimers = 0, spawnCalls = [], delivered = [], logged = []\<rparr>"

definition logger :: "level \<Rightarrow> string \<Rightarrow> FlutterProcessManager \<Rightarrow> FlutterProcessManager" where
  "logger lv msg m = m\<lparr>logged := logged m @ [(lv, msg)]\<rparr>"

text \<open>An optional string is truthy when it is given and not empty.\<close>

fun truthy :: "jsstring option \<Rightarrow> bool" where
  "truthy None = False"
| "truthy (Some s) = (s \<noteq> [])"

subsection \<open>Validation in \<open>start\<close>\<close>

definition validateTarget :: "filesystem \<Rightarrow> jsstring \<Rightarrow> FlutterRunOptions \<Rightarrow> error option" where
  "validateTarget fs wd options =
     (if truthy (target options) then
        let targetPath = resolve wd [worktreePath options, the (target options)] in
        if \<not> startsWith targetPath (resolve wd [worktreePath options])
        then Some (TargetOutsideProject (the (target options)))
        else if \<not> existsSync fs targetPath
        then Some (TargetDoesNotExist (the (target options)))
        else if \<not> endsWith targetPath (js ''.dart'')
        then Some (TargetNotDart (the (target options)))
        else None
      else None)"

text \<open>The character classes of the regular expressions.\<close>

definition isLetter :: "nat \<Rightarrow> bool" where
  "isLetter c = ((65 \<le> c \<and> c \<le> 90) \<or> (97 \<le> c \<and> c \<le> 122))"

definition isDigit :: "nat \<Rightarrow> bool" where
  "isDigit c = (48 \<le> c \<and> c \<le> 57)"

definition isFlavorChar :: "nat \<Rightarrow> bool" where
  "isFlavorChar c = (isLetter c \<or> isDigit c \<or> c = 95 \<or> c = 45)"

definition isIdentStart :: "nat \<Rightarrow> bool" where
  "isIdentStart c = (isLetter c \<or> c = 95)"

definition isIdentChar :: "nat \<Rightarrow> bool" where
  "isIdentChar c = (isLetter c \<or> isDigit c \<or> c = 95)"

text \<open>
  The code units \<open>.\<close> does not match in a regular expression without the \<open>s\<close> flag: line
  feed, carriage return, line separator and paragraph separator.
\<close>

definition isLineTerminator :: "nat \<Rightarrow> bool" where
  "isLineTerminator c = (c = 10 \<or> c = 13 \<or> c = 8232 \<or> c = 8233)"

text \<open>\<open>/^[a-zA-Z0-9_-]+$/.test(s)\<close>\<close>

definition matchesFlavor :: "jsstring \<Rightarrow> bool" where
  "matchesFlavor s = (s \<noteq> [] \<and> list_all isFlavorChar s)"

text \<open>
  \<open>/^[A-Za-z_][A-Za-z0-9_]*=.*$/.test(s)\<close>. The class of the starred part does not
  contain \<open>=\<close>, so the star takes every identifier character and the next code unit has
  to be \<open>=\<close>; \<open>$\<close> is the end of the string, so \<open>.*\<close> has to match all the rest.
\<close>

definition matchesDartDefine :: "jsstring \<Rightarrow> bool" where
  "matchesDartDefine s =
     (case s of
        [] \<Rightarrow> False
      | c # cs \<Rightarrow>
          isIdentStart c \<and>
          (case dropWhile isIdentChar cs of
             [] \<Rightarrow> False
           | d # v \<Rightarrow> d = 61 \<and> list_all (\<lambda>x. \<not> isLineTerminator x) v))"

definition validateFlavor :: "FlutterRunOptions \<Rightarrow> error option" where
  "validateFlavor options =
     (if truthy (flavor options) then
        if \<not> matchesFlavor (the (flavor options))
        then Some (InvalidFlavor (the (flavor options)))
        else None
      else None)"

definition ALLOWED_ARGS :: "jsstring list" where
  "ALLOWED_ARGS =
     [js ''--debug'', js ''--release'', js ''--profile'', js ''--no-sound-null-safety'',
      js ''--enable-software-rendering'', js ''--verbose'', js ''-v'']"

text \<open>The loop over \<open>options.additionalArgs\<close>: the first argument refused ends it.\<close>

fun checkArgs :: "jsstring list \<Rightarrow> error option" where
  "checkArgs [] = None"
| "checkArgs (arg # rest) =
     (if arg \<in> set ALLOWED_ARGS then checkArgs rest
      else if startsWith arg (js ''--dart-define='') then
        (let defineValue = drop (length (js ''--dart-define='')) arg in
         if \<not> matchesDartDefine defineValue then Some (InvalidDartDefine arg)
         else checkArgs rest)
      else Some (InvalidFlutterArgument arg))"

definition validateAdditionalArgs :: "FlutterRunOptions \<Rightarrow> error option" where
  "validateAdditionalArgs options =
     (case additionalArgs options of None \<Rightarrow> None | Some as \<Rightarrow> checkArgs as)"

definition buildArgs :: "FlutterRunOptions \<Rightarrow> jsstring list" where
  "buildArgs options =
     [js ''run'', js ''-d'', deviceId options]
     @ (if truthy (target options) then [js ''-t'', the (target options)] else [])
     @ (if truthy (flavor options) then [js ''--flavor'', the (flavor options)] else [])
     @ (case additionalArgs options of None \<Rightarrow> [] | Some as \<Rightarrow> as)"

subsection \<open>\<open>start\<close>\<close>

text \<open>
  \<open>fs\<close> and \<open>wd\<close> are the file system and the working directory, \<open>now\<close> the clock,
  \<open>spawnedPid\<close> the process id the spawned handle reports (none when the system gave
  none). The result is the error thrown or the \<open>FlutterProcess\<close> returned, and the manager
  afterwards.
\<close>

definition start ::
  "filesystem \<Rightarrow> jsstring \<Rightarrow> nat \<Rightarrow> nat option \<Rightarrow> FlutterRunOptions \<Rightarrow> FlutterProcessManager
   \<Rightarrow> (error + FlutterProcess) \<times> FlutterProcessManager" where
  "start fs wd now spawnedPid options m =
     (if process m \<noteq> None then (Inl AlreadyRunning, m)
      else
        let m1 = logger INFO ''Starting Flutter process'' m in
        case validateTarget fs wd options of
          Some e \<Rightarrow> (Inl e, m1)
        | None \<Rightarrow>
        (case validateFlavor options of
          Some e \<Rightarrow> (Inl e, m1)
        | None \<Rightarrow>
        (case validateAdditionalArgs options of
          Some e \<Rightarrow> (Inl e, m1)
        | None \<Rightarrow>
          let as = buildArgs options;
              fp = \<lparr>pid = 0, status = Starting, startedAt = now,
                    stoppedAt = None, exitCode = None\<rparr>;
              m2 = m1\<lparr>flutterProcess := Some fp\<rparr>;
              handle = \<lparr>command = js ''flutter'', args = as, cwd = worktreePath options,
                        processPid = spawnedPid, stdinWritten = [], stdinEnded = False,
                        signalsSent = []\<rparr>;
              m3 = m2\<lparr>process := Some handle,
                      spawnCalls := spawnCalls m2 @ [(js ''flutter'', as, worktreePath options)]\<rparr>
          in (case spawnedPid of
                Some p \<Rightarrow>
                  if p \<noteq> 0 then
                    let fp' = fp\<lparr>pid := p, status := Running\<rparr>;
                        m4 = logger INFO ''Flutter process started''
                               (m3\<lparr>flutterProcess := Some fp'\<rparr>)
                    in (Inr fp', m4)
                  else (Inr fp, m3)
              | None \<Rightarrow> (Inr fp, m3)))))"

subsection \<open>Output, status changes and exit\<close>

text \<open>
  White space and line terminators, which \<open>trim\<close> removes from both ends of a string.
\<close>

definition isWhiteSpace :: "nat \<Rightarrow> bool" where
  "isWhiteSpace c =
     (c = 9 \<or> c = 11 \<or> c = 12 \<or> c = 32 \<or> c = 160 \<or> c = 5760 \<or>
      (8192 \<le> c \<and> c \<le> 8202) \<or> c = 8239 \<or> c = 8287 \<or> c = 12288 \<or> c = 65279 \<or>
      isLineTerminator c)"

definition trim :: "jsstring \<Rightarrow> jsstring" where
  "trim s = rev (dropWhile isWhiteSpace (rev (dropWhile isWhiteSpace s)))"

text \<open>The \<open>forEach\<close> over the subscribers, with the \<open>try\<close>/\<open>catch\<close> around each call.\<close>

fun notifySubscribers ::
  "Subscriber list \<Rightarrow> jsstring \<Rightarrow> FlutterProcessManager \<Rightarrow> FlutterProcessManager" where
  "notifySubscribers [] ln m = m"
| "notifySubscribers (subscriber # rest) ln m =
     (let m1 = m\<lparr>delivered := delivered m @ [(subscriberId subscriber, ln)]\<rparr>;
          m2 = (case throwsOn subscriber ln of
                  None \<Rightarrow> m1
                | Some e \<Rightarrow> logger ERROR ''Error in log subscriber'' m1)
      in notifySubscribers rest ln m2)"

text \<open>
  \<open>setTimeout\<close> is a count of callbacks waiting; \<open>reloadTimerFired\<close> is one of them
  running, which the event loop does one second after it was set.
\<close>

definition detectStatusChanges :: "jsstring \<Rightarrow> FlutterProcessManager \<Rightarrow> FlutterProcessManager" where
  "detectStatusChanges ln m =
     (case flutterProcess m of
        None \<Rightarrow> m
      | Some fp \<Rightarrow>
          if includes_str ln (js ''Hot reload'') \<or> includes_str ln (js ''Reloaded'')
          then m\<lparr>flutterProcess := Some (fp\<lparr>status := HotReloading\<rparr>),
                 pendingTimers := pendingTimers m + 1\<rparr>
          else m)"

definition reloadTimerFired :: "FlutterProcessManager \<Rightarrow> FlutterProcessManager" where
  "reloadTimerFired m =
     (if pendingTimers m = 0 then m
      else
        let m1 = m\<lparr>pendingTimers := pendingTimers m - 1\<rparr> in
        case flutterProcess m1 of
          None \<Rightarrow> m1
        | Some fp \<Rightarrow> m1\<lparr>flutterProcess := Some (fp\<lparr>status := Running\<rparr>)\<rparr>)"

definition processLine :: "nat \<Rightarrow> jsstring \<Rightarrow> FlutterProcessManager \<Rightarrow> FlutterProcessManager" where
  "processLine now ln m =
     (if trim ln \<noteq> [] then
        let m1 = m\<lparr>logBuffer := append_entry now ln (logBuffer m)\<rparr>;
            m2 = notifySubscribers (logSubscribers m1) ln m1
        in detectStatusChanges ln m2
      else m)"

definition handleOutput :: "nat \<Rightarrow> jsstring \<Rightarrow> FlutterProcessManager \<Rightarrow> FlutterProcessManager" where
  "handleOutput now data m = fold (processLine now) (splitOn 10 data) m"

definition handleExit ::
  "nat \<Rightarrow> int option \<Rightarrow> jsstring option \<Rightarrow> FlutterProcessManager \<Rightarrow> FlutterProcessManager" where
  "handleExit now code signal m =
     (let m1 = logger INFO ''Flutter process exited'' m;
          m2 = (case flutterProcess m1 of
                  None \<Rightarrow> m1
                | Some fp \<Rightarrow>
                    m1\<lparr>flutterProcess :=
                         Some (fp\<lparr>status := (if code = Some 0 then Stopped else Failed),
                                  stoppedAt := Some now,
                                  exitCode := code\<rparr>)\<rparr>)
      in m2\<lparr>process := None\<rparr>)"

subsection \<open>Commands to the subprocess\<close>

text \<open>
  A write on the subprocess's input stream is a call into the stream library; \<open>fault\<close> is
  the error that call throws, if it throws.
\<close>

definition stdinWrite :: "jsstring option \<Rightarrow> jsstring \<Rightarrow> SpawnedProcess \<Rightarrow> error + SpawnedProcess" where
  "stdinWrite fault s h =
     (case fault of
        Some e \<Rightarrow> Inl (External e)
      | None \<Rightarrow> Inr (h\<lparr>stdinWritten := stdinWritten h @ [s]\<rparr>))"

definition stop ::
  "jsstring option \<Rightarrow> FlutterProcessManager \<Rightarrow> (error + bool) \<times> FlutterProcessManager" where
  "stop fault m =
     (case process m of
        None \<Rightarrow> (Inr False, logger WARN ''No Flutter process to stop'' m)
      | Some h \<Rightarrow>
          let m1 = logger INFO ''Stopping Flutter process'' m in
          case stdinWrite fault (js ''q'' @ [10]) h of
            Inl e \<Rightarrow> (Inl e, m1)
          | Inr h1 \<Rightarrow> (Inr True, m1\<lparr>process := Some (h1\<lparr>stdinEnded := True\<rparr>)\<rparr>))"

definition hotReload ::
  "jsstring option \<Rightarrow> FlutterProcessManager \<Rightarrow> (error + bool) \<times> FlutterProcessManager" where
  "hotReload fault m =
     (case process m of
        None \<Rightarrow> (Inr False, logger WARN ''No Flutter process for hot reload'' m)
      | Some h \<Rightarrow>
          let m1 = logger INFO ''Triggering hot reload'' m in
          case stdinWrite fault (js ''r'' @ [10]) h of
            Inl e \<Rightarrow> (Inl e, m1)
          | Inr h1 \<Rightarrow> (Inr True, m1\<lparr>process := Some h1\<rparr>))"

definition hotRestart ::
  "jsstring option \<Rightarrow> FlutterProcessManager \<Rightarrow> (error + bool) \<times> FlutterProcessManager" where
  "hotRestart fault m =
     (case process m of
        None \<Rightarrow> (Inr False, logger WARN ''No Flutter process for hot restart'' m)
      | Some h \<Rightarrow>
          let m1 = logger INFO ''Triggering hot restart'' m in
          case stdinWrite fault (js ''R'' @ [10]) h of
            Inl e \<Rightarrow> (Inl e, m1)
          | Inr h1 \<Rightarrow> (Inr True, m1\<lparr>process := Some h1\<rparr>))"

text \<open>
  \<open>kill(signal = 'SIGTERM')\<close>; \<open>killResult\<close> is what the handle's \<open>kill\<close> answers.
\<close>

definition kill ::
  "jsstring option \<Rightarrow> bool \<Rightarrow> FlutterProcessManager \<Rightarrow> bool \<times> FlutterProcessManager" where
  "kill signalArg killResult m =
     (let signal = (case signalArg of None \<Rightarrow> js ''SIGTERM'' | Some sg \<Rightarrow> sg) in
      case process m of
        None \<Rightarrow> (False, m)
      | Some h \<Rightarrow>
          let m1 = logger INFO ''Killing Flutter process'' m
          in (killResult, m1\<lparr>process := Some (h\<lparr>signalsSent := signalsSent h @ [signal]\<rparr>)\<rparr>))"

definition getStatus :: "FlutterProcessManager \<Rightarrow> FlutterProcess option" where
  "getStatus m = flutterProcess m"

record LogsResult =
  resultLogs :: "LogEntry list"
  nextIndex :: nat
  totalLines :: nat

definition managerGetLogs ::
  "int option \<Rightarrow> int option \<Rightarrow> FlutterProcessManager \<Rightarrow> error + LogsResult" where
  "managerGetLogs fromIndex limit m =
     (case getLogs fromIndex limit (logBuffer m) of
        Inl e \<Rightarrow> Inl e
      | Inr ls \<Rightarrow> Inr \<lparr>resultLogs = ls,
                       nextIndex = getNextIndex (logBuffer m),
                       totalLines = getTotalLines (logBuffer m)\<rparr>)"

text \<open>
  \<open>Set.add\<close> keeps a callback that is already a member where it is; the closure
  \<open>subscribeToLogs\<close> returns is \<open>unsubscribe\<close> of that callback.
\<close>

definition subscribeToLogs :: "Subscriber \<Rightarrow> FlutterProcessManager \<Rightarrow> FlutterProcessManager" where
  "subscribeToLogs callback m =
     (if subscriberId callback \<in> set (map subscriberId (logSubscribers m)) then m
      else m\<lparr>logSubscribers := logSubscribers m @ [callback]\<rparr>)"

definition unsubscribe :: "Subscriber \<Rightarrow> FlutterProcessManager \<Rightarrow> FlutterProcessManager" where
  "unsubscribe callback m =
     m\<lparr>logSubscribers :=
         filter (\<lambda>sb. subscriberId sb \<noteq> subscriberId callback) (logSubscribers m)\<rparr>"

definition clearLogs :: "FlutterProcessManager \<Rightarrow> FlutterProcessManager" where
  "clearLogs m = m\<lparr>logBuffer := clear (logBuffer m)\<rparr>"

subsection \<open>Events and \<open>cleanup\<close>\<close>

text \<open>
  What the event loop delivers to a manager: a chunk of output on either stream, the
  exit of the subprocess, a hot-reload timeout running.
\<close>

datatype event =
    Output jsstring
  | Exit "int option" "jsstring option"
  | TimerFired

fun handleEvent :: "nat \<Rightarrow> event \<Rightarrow> FlutterProcessManager \<Rightarrow> FlutterProcessManager" where
  "handleEvent now (Output data) m = handleOutput now data m"
| "handleEvent now (Exit code signal) m = handleExit now code signal m"
| "handleEvent now TimerFired m = reloadTimerFired m"

definition handleEvents :: "(nat \<times> event) list \<Rightarrow> FlutterProcessManager \<Rightarrow> FlutterProcessManager" where
  "handleEvents evs m = fold (\<lambda>(now, ev). handleEvent now ev) evs m"

text \<open>
  \<open>cleanup\<close> waits for the subprocess to exit. While it waits the event loop delivers
  events; the wait ends when \<open>wait()\<close> resolves, when it rejects, or when the five
  seconds are over.
\<close>

datatype waitOutcome = WaitResolved | WaitRejected jsstring | WaitTimedOut

record CleanupEnv =
  stopFault :: "jsstring option"
  duringWait :: "(nat \<times> event) list"
  waitEnds :: waitOutcome
  killAnswer :: bool

definition cleanup ::
  "CleanupEnv \<Rightarrow> FlutterProcessManager \<Rightarrow> (error + unit) \<times> FlutterProcessManager" where
  "cleanup env m =
     (let m1 = logger DEBUG ''Cleaning up Flutter process manager'' m;
          m2 = m1\<lparr>logSubscribers := []\<rparr>
      in case process m2 of
           None \<Rightarrow> (Inr (), clearLogs m2)
         | Some currentProcess \<Rightarrow>
             (case stop (stopFault env) m2 of
                (Inl e, m3) \<Rightarrow> (Inl e, m3)
              | (Inr stopped, m3) \<Rightarrow>
                  let m4 = handleEvents (duringWait env) m3;
                      m5 = (case waitEnds env of
                              WaitResolved \<Rightarrow> m4
                            | WaitRejected e \<Rightarrow> logger ERROR ''Error waiting for process'' m4
                            | WaitTimedOut \<Rightarrow>
                                snd (kill (Some (js ''SIGKILL'')) (killAnswer env)
                                      (logger WARN
                                         ''Flutter process did not stop gracefully, killing'' m4)))
                  in (Inr (), clearLogs m5)))"

section \<open>SessionManager\<close>

text \<open>
  \<open>createdAt\<close> is kept as the clock reading in both records; \<open>toISOString\<close> prints it.
  A session's test manager belongs to code outside these files and is left out.
\<close>

record Session =
  session_id :: jsstring
  session_worktreePath :: jsstring
  session_simulatorUdid :: jsstring
  session_deviceType :: jsstring
  session_createdAt :: nat
  flutterProcessManager :: "FlutterProcessManager option"

record SessionInfo =
  info_id :: jsstring
  info_worktreePath :: jsstring
  info_simulatorUdid :: jsstring
  info_deviceType :: jsstring
  info_createdAt :: nat

definition toInfo :: "Session \<Rightarrow> SessionInfo" where
  "toInfo session =
     \<lparr>info_id = session_id session,
      info_worktreePath = session_worktreePath session,
      info_simulatorUdid = session_simulatorUdid session,
      info_deviceType = session_deviceType session,
      info_createdAt = session_createdAt session\<rparr>"

text \<open>
  Modelled from the spec: \<open>sessionState\<close> of \<open>state.js\<close>, which is not among the source
  files. The spec describes the registry as a single mapping from session identifiers to
  sessions; the calls made on it are \<open>set\<close>, \<open>get\<close>, \<open>delete\<close> and \<open>list\<close>. It is
  modelled as a JavaScript \<open>Map\<close>: keyed, in insertion order, \<open>list\<close> giving the
  \<open>SessionInfo\<close> of every session.
\<close>

type_synonym registry = "(jsstring \<times> Session) list"

fun sessionState_set :: "jsstring \<Rightarrow> Session \<Rightarrow> registry \<Rightarrow> registry" where
  "sessionState_set k v [] = [(k, v)]"
| "sessionState_set k v ((k', v') # r) =
     (if k = k' then (k, v) # r else (k', v') # sessionState_set k v r)"

definition sessionState_get :: "jsstring \<Rightarrow> registry \<Rightarrow> Session option" where
  "sessionState_get k r = map_of r k"

definition sessionState_delete :: "jsstring \<Rightarrow> registry \<Rightarrow> registry" where
  "sessionState_delete k r = filter (\<lambda>(k', v). k' \<noteq> k) r"

definition sessionState_list :: "registry \<Rightarrow> SessionInfo list" where
  "sessionState_list r = map (\<lambda>(k, v). toInfo v) r"

text \<open>The calls made to the simulator control functions of \<open>simctl.js\<close>.\<close>

datatype simcall =
    CreateSimulator jsstring
  | BootSimulator jsstring
  | ShutdownSimulator jsstring
  | DeleteSimulator jsstring

text \<open>
  The manager's field and the registry, followed by what the manager has done to the
  world: the simulator calls and the logger's output.
\<close>

record SessionManager =
  allowedPathPrefix :: jsstring
  sessionState :: registry
  simulatorCalls :: "simcall list"
  managerLogged :: "logline list"

definition newSessionManager :: "jsstring option \<Rightarrow> SessionManager" where
  "newSessionManager prefixArg =
     \<lparr>allowedPathPrefix = (case prefixArg of None \<Rightarrow> js ''/Users/'' | Some p \<Rightarrow> p),
      sessionState = [], simulatorCalls = [], managerLogged = []\<rparr>"

definition managerLogger :: "level \<Rightarrow> string \<Rightarrow> SessionManager \<Rightarrow> SessionManager" where
  "managerLogger lv msg sm = sm\<lparr>managerLogged := managerLogged sm @ [(lv, msg)]\<rparr>"

definition configure :: "jsstring \<Rightarrow> SessionManager \<Rightarrow> SessionManager" where
  "configure p sm = managerLogger INFO ''SessionManager configured'' (sm\<lparr>allowedPathPrefix := p\<rparr>)"

text \<open>
  What \<open>createSession\<close> meets outside the manager: the file system, the working
  directory, the clock, the identifier \<open>uuidv4\<close> generates, and what \<open>createSimulator\<close>
  and \<open>bootSimulator\<close> do (the error message of a rejection, or the device identifier).
\<close>

record CreateEnv =
  env_fs :: filesystem
  env_cwd :: jsstring
  env_now :: nat
  env_uuid :: jsstring
  createSimulatorResult :: "jsstring + jsstring"
  bootSimulatorResult :: "jsstring option"

definition createSession ::
  "CreateEnv \<Rightarrow> jsstring \<Rightarrow> jsstring option \<Rightarrow> SessionManager
   \<Rightarrow> (error + SessionInfo) \<times> SessionManager" where
  "createSession env worktreePathArg deviceTypeArg sm =
     (let deviceType = (case deviceTypeArg of None \<Rightarrow> js ''iPhone 16 Pro'' | Some d \<Rightarrow> d);
          sm1 = managerLogger INFO ''Creating session'' sm;
          resolvedPath = resolve (env_cwd env) [worktreePathArg]
      in
      if \<not> startsWith resolvedPath (allowedPathPrefix sm1)
      then (Inl (AccessDenied (allowedPathPrefix sm1) resolvedPath), sm1)
      else if \<not> existsSync (env_fs env) resolvedPath
      then (Inl (DirectoryDoesNotExist worktreePathArg), sm1)
      else if \<not> isDirectory (env_fs env) resolvedPath
      then (Inl (NotADirectory worktreePathArg), sm1)
      else
        let pubspecPath = join [resolvedPath, js ''pubspec.yaml''] in
        if \<not> existsSync (env_fs env) pubspecPath
        then (Inl (MissingPubspec resolvedPath), sm1)
        else
          let sessionId = env_uuid env;
              sm2 = sm1\<lparr>simulatorCalls := simulatorCalls sm1 @ [CreateSimulator deviceType]\<rparr>
          in case createSimulatorResult env of
               Inl e \<Rightarrow> (Inl (External e), sm2)
             | Inr simulatorUdid \<Rightarrow>
                 let sm3 = managerLogger DEBUG ''Simulator created'' sm2;
                     sm4 = sm3\<lparr>simulatorCalls := simulatorCalls sm3 @ [BootSimulator simulatorUdid]\<rparr>
                 in case bootSimulatorResult env of
                      Some e \<Rightarrow> (Inl (External e), sm4)
                    | None \<Rightarrow>
                        let sm5 = managerLogger DEBUG ''Simulator booted'' sm4;
                            session = \<lparr>session_id = sessionId,
                                       session_worktreePath = worktreePathArg,
                                       session_simulatorUdid = simulatorUdid,
                                       session_deviceType = deviceType,
                                       session_createdAt = env_now env,
                                       flutterProcessManager = None\<rparr>;
                            sm6 = sm5\<lparr>sessionState :=
                                        sessionState_set sessionId session (sessionState sm5)\<rparr>;
                            sm7 = managerLogger INFO ''Session created'' sm6
                        in (Inr (toInfo session), sm7))"

text \<open>
  What \<open>endSession\<close> meets: what happens during the process manager's \<open>cleanup\<close>, and
  whether \<open>shutdownSimulator\<close> and \<open>deleteSimulator\<close> reject (with which message).
\<close>

record EndEnv =
  cleanupEnv :: CleanupEnv
  shutdownSimulatorResult :: "jsstring option"
  deleteSimulatorResult :: "jsstring option"

definition endSession ::
  "EndEnv \<Rightarrow> jsstring \<Rightarrow> SessionManager \<Rightarrow> (error + unit) \<times> SessionManager" where
  "endSession env sessionId sm =
     (let sm1 = managerLogger INFO ''Ending session'' sm in
      case sessionState_get sessionId (sessionState sm1) of
        None \<Rightarrow> (Inl (SessionNotFound sessionId), sm1)
      | Some session \<Rightarrow>
          let sm2 = (case flutterProcessManager session of
                       None \<Rightarrow> sm1
                     | Some fpm \<Rightarrow>
                         (case cleanup (cleanupEnv env) fpm of
                            (Inr u, fpm') \<Rightarrow>
                              managerLogger DEBUG ''Flutter process cleaned up''
                                (sm1\<lparr>sessionState :=
                                       sessionState_set sessionId
                                         (session\<lparr>flutterProcessManager := Some fpm'\<rparr>)
                                         (sessionState sm1)\<rparr>)
                          | (Inl e, fpm') \<Rightarrow>
                              managerLogger WARN ''Failed to cleanup Flutter process''
                                (sm1\<lparr>sessionState :=
                                       sessionState_set sessionId
                                         (session\<lparr>flutterProcessManager := Some fpm'\<rparr>)
                                         (sessionState sm1)\<rparr>)));
              sm3 = sm2\<lparr>simulatorCalls :=
                          simulatorCalls sm2 @ [ShutdownSimulator (session_simulatorUdid session)]\<rparr>;
              sm4 = (case shutdownSimulatorResult env of
                       None \<Rightarrow> managerLogger DEBUG ''Simulator shutdown'' sm3
                     | Some e \<Rightarrow> managerLogger WARN ''Failed to shutdown simulator'' sm3);
              sm5 = sm4\<lparr>simulatorCalls :=
                          simulatorCalls sm4 @ [DeleteSimulator (session_simulatorUdid session)]\<rparr>;
              sm6 = (case deleteSimulatorResult env of
                       None \<Rightarrow> managerLogger DEBUG ''Simulator deleted'' sm5
                     | Some e \<Rightarrow> managerLogger WARN ''Failed to delete simulator'' sm5);
              sm7 = sm6\<lparr>sessionState := sessionState_delete sessionId (sessionState sm6)\<rparr>
          in (Inr (), managerLogger INFO ''Session ended'' sm7))"

definition listSessions :: "SessionManager \<Rightarrow> SessionInfo list" where
  "listSessions sm = sessionState_list (sessionState sm)"

definition getSession :: "jsstring \<Rightarrow> SessionManager \<Rightarrow> Session option" where
  "getSession sessionId sm = sessionState_get sessionId (sessionState sm)"

text \<open>
  The loop of \<open>cleanup\<close> over the sessions listed when it started; \<open>envs\<close> gives, for
  each session, what its \<open>endSession\<close> meets.
\<close>

fun cleanupLoop ::
  "(jsstring \<Rightarrow> EndEnv) \<Rightarrow> SessionInfo list \<Rightarrow> SessionManager \<Rightarrow> SessionManager" where
  "cleanupLoop envs [] sm = sm"
| "cleanupLoop envs (session # rest) sm =
     (case endSession (envs (info_id session)) (info_id session) sm of
        (Inr u, sm1) \<Rightarrow> cleanupLoop envs rest sm1
      | (Inl e, sm1) \<Rightarrow>
          cleanupLoop envs rest
            (managerLogger ERROR ''Failed to end session during cleanup'' sm1))"

definition cleanupSessions :: "(jsstring \<Rightarrow> EndEnv) \<Rightarrow> SessionManager \<Rightarrow> SessionManager" where
  "cleanupSessions envs sm =
     (let sm1 = managerLogger INFO ''Cleaning up all sessions'' sm;
          sessions = sessionState_list (sessionState sm1)
      in cleanupLoop envs sessions sm1)"

section \<open>Predicates and example inputs used in the statements\<close>

text \<open>The errors \<open>createSession\<close> throws while validating the path.\<close>

fun isPathValidationError :: "error \<Rightarrow> bool" where
  "isPathValidationError (AccessDenied a p) = True"
| "isPathValidationError (DirectoryDoesNotExist p) = True"
| "isPathValidationError (NotADirectory p) = True"
| "isPathValidationError (MissingPubspec p) = True"
| "isPathValidationError e = False"

fun isAccessDenied :: "error \<Rightarrow> bool" where
  "isAccessDenied (AccessDenied a p) = True"
| "isAccessDenied e = False"

text \<open>
  A registry as \<open>createSession\<close> builds it: one entry per key, each session stored under
  its own identifier.
\<close>

definition wfRegistry :: "registry \<Rightarrow> bool" where
  "wfRegistry r = (distinct (map fst r) \<and> list_all (\<lambda>(k, v). session_id v = k) r)"

text \<open>The simulator calls that tear down the sessions of a registry, in order.\<close>

definition teardownCalls :: "registry \<Rightarrow> simcall list" where
  "teardownCalls r =
     concat (map (\<lambda>(k, v). [ShutdownSimulator (session_simulatorUdid v),
                            DeleteSimulator (session_simulatorUdid v)]) r)"

text \<open>
  A small file system: two Flutter projects, \<open>/Users/alice/app\<close> and its sibling
  \<open>/Users/alice-evil\<close>, and a directory \<open>/Users/alice/app-evil\<close> beside the first.
\<close>

definition exampleFs :: filesystem where
  "exampleFs p =
     (if p = js ''/Users/alice/app'' \<or> p = js ''/Users/alice/app/lib'' \<or>
         p = js ''/Users/alice-evil'' \<or> p = js ''/Users/alice/app-evil''
      then Some Directory
      else if p = js ''/Users/alice/app/pubspec.yaml'' \<or>
              p = js ''/Users/alice/app/lib/main.dart'' \<or>
              p = js ''/Users/alice/app/README.md'' \<or>
              p = js ''/Users/alice-evil/pubspec.yaml'' \<or>
              p = js ''/Users/alice/app-evil/main.dart''
      then Some File
      else None)"

definition exampleCreateEnv :: CreateEnv where
  "exampleCreateEnv =
     \<lparr>env_fs = exampleFs, env_cwd = js ''/srv/mcp'', env_now = 1000,
      env_uuid = js ''session-1'', createSimulatorResult = Inr (js ''UDID-1''),
      bootSimulatorResult = None\<rparr>"

text \<open>
  A manager holding three sessions; the second has a process manager with a subprocess
  attached. Its teardown meets a broken input stream and a failing shutdown.
\<close>

definition exampleSession :: "jsstring \<Rightarrow> jsstring \<Rightarrow> FlutterProcessManager option \<Rightarrow> Session" where
  "exampleSession sid udid fpm =
     \<lparr>session_id = sid, session_worktreePath = js ''/Users/alice/app'',
      session_simulatorUdid = udid, session_deviceType = js ''iPhone 16 Pro'',
      session_createdAt = 1000, flutterProcessManager = fpm\<rparr>"

definition exampleOptions :: FlutterRunOptions where
  "exampleOptions =
     \<lparr>worktreePath = js ''/Users/alice/app'', deviceId = js ''UDID-2'',
      target = None, flavor = None, additionalArgs = None\<rparr>"

definition exampleRunning :: FlutterProcessManager where
  "exampleRunning =
     snd (start exampleFs (js ''/srv/mcp'') 2000 (Some 4242) exampleOptions
            (newFlutterProcessManager 1000))"

definition exampleManager :: SessionManager where
  "exampleManager =
     \<lparr>allowedPathPrefix = js ''/Users/'',
      sessionState =
        [(js ''s1'', exampleSession (js ''s1'') (js ''UDID-1'') None),
         (js ''s2'', exampleSession (js ''s2'') (js ''UDID-2'') (Some exampleRunning)),
         (js ''s3'', exampleSession (js ''s3'') (js ''UDID-3'') None)],
      simulatorCalls = [], managerLogged = []\<rparr>"

definition exampleEndEnvs :: "jsstring \<Rightarrow> EndEnv" where
  "exampleEndEnvs sid =
     (if sid = js ''s2''
      then \<lparr>cleanupEnv = \<lparr>stopFault = Some (js ''write EPIPE''), duringWait = [],
                           waitEnds = WaitResolved, killAnswer = True\<rparr>,
            shutdownSimulatorResult = Some (js ''simctl shutdown failed''),
            deleteSimulatorResult = None\<rparr>
      else \<lparr>cleanupEnv = \<lparr>stopFault = None, duringWait = [],
                           waitEnds = WaitResolved, killAnswer = True\<rparr>,
            shutdownSimulatorResult = None,
            deleteSimulatorResult = None\<rparr>)"

text \<open>
  The operations of a process manager as a history: each step is a call of a method or an
  event delivered to a handler.
\<close>

datatype action =
    Start filesystem jsstring nat "nat option" FlutterRunOptions
  | Deliver nat event
  | Stop "jsstring option"
  | HotReload "jsstring option"
  | HotRestart "jsstring option"
  | Kill "jsstring option" bool
  | SubscribeToLogs Subscriber
  | Unsubscribe Subscriber
  | ClearLogs
  | Cleanup CleanupEnv

fun perform :: "action \<Rightarrow> FlutterProcessManager \<Rightarrow> FlutterProcessManager" where
  "perform (Start fs wd now sp options) m = snd (start fs wd now sp options m)"
| "perform (Deliver now ev) m = handleEvent now ev m"
| "perform (Stop fault) m = snd (stop fault m)"
| "perform (HotReload fault) m = snd (hotReload fault m)"
| "perform (HotRestart fault) m = snd (hotRestart fault m)"
| "perform (Kill sg answer) m = snd (kill sg answer m)"
| "perform (SubscribeToLogs sb) m = subscribeToLogs sb m"
| "perform (Unsubscribe sb) m = unsubscribe sb m"
| "perform ClearLogs m = clearLogs m"
| "perform (Cleanup env) m = snd (cleanup env m)"

definition performAll :: "action list \<Rightarrow> FlutterProcessManager \<Rightarrow> FlutterProcessManager" where
  "performAll acts m = fold perform acts m"

fun isExit :: "nat \<times> event \<Rightarrow> bool" where
  "isExit (now, Exit code signal) = True"
| "isExit (now, ev) = False"

text \<open>
  Whether, at the end of a history, the last successful \<open>start\<close> has not been followed by
  the exit handler; \<open>g\<close> says so for the time before the history.
\<close>

fun startedNotExited :: "bool \<Rightarrow> action list \<Rightarrow> FlutterProcessManager \<Rightarrow> bool" where
  "startedNotExited g [] m = g"
| "startedNotExited g (Start fs wd now sp options # acts) m =
     startedNotExited (if isl (fst (start fs wd now sp options m)) then g else True) acts
       (perform (Start fs wd now sp options) m)"
| "startedNotExited g (Deliver now (Exit code signal) # acts) m =
     startedNotExited False acts (perform (Deliver now (Exit code signal)) m)"
| "startedNotExited g (Cleanup env # acts) m =
     startedNotExited
       (g \<and> (isl (fst (stop (stopFault env) (m\<lparr>logSubscribers := []\<rparr>))) \<or>
             \<not> list_ex isExit (duringWait env)))
       acts (perform (Cleanup env) m)"
| "startedNotExited g (a # acts) m = startedNotExited g acts (perform a m)"

text \<open>
  The forms of an additional argument. An argument has the form
  \<open>--dart-define=KEY=VALUE\<close> when it starts with \<open>--dart-define=\<close>, an \<open>=\<close> follows, and
  the text up to that \<open>=\<close>, the key, is an identifier; the value is the text after it.
\<close>

definition isIdentifier :: "jsstring \<Rightarrow> bool" where
  "isIdentifier k = (case k of [] \<Rightarrow> False | c # cs \<Rightarrow> isIdentStart c \<and> list_all isIdentChar cs)"

definition dartDefineKey :: "jsstring \<Rightarrow> jsstring" where
  "dartDefineKey arg = takeWhile (\<lambda>c. c \<noteq> 61) (drop (length (js ''--dart-define='')) arg)"

definition dartDefineValue :: "jsstring \<Rightarrow> jsstring" where
  "dartDefineValue arg =
     drop 1 (dropWhile (\<lambda>c. c \<noteq> 61) (drop (length (js ''--dart-define='')) arg))"

definition hasDartDefineForm :: "jsstring \<Rightarrow> bool" where
  "hasDartDefineForm arg =
     (startsWith arg (js ''--dart-define='') \<and>
      dropWhile (\<lambda>c. c \<noteq> 61) (drop (length (js ''--dart-define='')) arg) \<noteq> [] \<and>
      isIdentifier (dartDefineKey arg))"

text \<open>The arguments the spec says are accepted.\<close>

definition acceptedBySpec :: "jsstring \<Rightarrow> bool" where
  "acceptedBySpec arg = (arg \<in> set ALLOWED_ARGS \<or> hasDartDefineForm arg)"

text \<open>The same, with a value that holds no line terminator.\<close>

definition acceptedArg :: "jsstring \<Rightarrow> bool" where
  "acceptedArg arg =
     (arg \<in> set ALLOWED_ARGS \<or>
      (hasDartDefineForm arg \<and> list_all (\<lambda>c. \<not> isLineTerminator c) (dartDefineValue arg)))"

text \<open>The lines of a chunk that the output handler processes, and the reload markers.\<close>

definition isBlank :: "jsstring \<Rightarrow> bool" where
  "isBlank ln = (trim ln = [])"

definition processedLines :: "jsstring \<Rightarrow> jsstring list" where
  "processedLines data = filter (\<lambda>ln. \<not> isBlank ln) (splitOn 10 data)"

definition isReloadMarker :: "jsstring \<Rightarrow> bool" where
  "isReloadMarker ln = (includes_str ln (js ''Hot reload'') \<or> includes_str ln (js ''Reloaded''))"

text \<open>
  The subscriber calls and the logger calls that one processed line gives rise to, for
  the subscribers registered when the chunk arrives.
\<close>

definition callsFor :: "Subscriber list \<Rightarrow> jsstring \<Rightarrow> (nat \<times> jsstring) list" where
  "callsFor subs ln = map (\<lambda>sb. (subscriberId sb, ln)) subs"

definition errorsFor :: "Subscriber list \<Rightarrow> jsstring \<Rightarrow> logline list" where
  "errorsFor subs ln =
     map (\<lambda>sb. (ERROR, ''Error in log subscriber'')) (filter (\<lambda>sb. throwsOn sb ln \<noteq> None) subs)"

text \<open>Two subscribers: one that throws on every line, registered first, and one that never throws.\<close>

definition exampleThrowing :: Subscriber where
  "exampleThrowing = \<lparr>subscriberId = 1, throwsOn = (\<lambda>ln. Some (js ''boom''))\<rparr>"

definition exampleQuiet :: Subscriber where
  "exampleQuiet = \<lparr>subscriberId = 2, throwsOn = (\<lambda>ln. None)\<rparr>"

definition exampleSubscribed :: FlutterProcessManager where
  "exampleSubscribed = subscribeToLogs exampleQuiet (subscribeToLogs exampleThrowing exampleRunning)"

section \<open>Properties of the log buffer\<close>

lemma currentIndex_append [simp]: "currentIndex (append_entry now ln b) = Suc (currentIndex b)"
  by (simp add: append_entry_def Let_def)

lemma maxLines_append [simp]: "maxLines (append_entry now ln b) = maxLines b"
  by (simp add: append_entry_def Let_def)

lemma appendLines_snoc:
  "appendLines (tls @ [(now, ln)]) b = append_entry now ln (appendLines tls b)"
  by (simp add: appendLines_def)

lemma entriesFrom_snoc:
  "entriesFrom k (tls @ [(now, ln)]) =
     entriesFrom k tls @ [\<lparr>line = ln, timestamp = now, index = k + length tls\<rparr>]"
  by (simp add: entriesFrom_def)

lemma length_entriesFrom [simp]: "length (entriesFrom k tls) = length tls"
  by (simp add: entriesFrom_def)

lemma appendLines_fresh:
  assumes "0 \<le> C"
  shows "appendLines tls (newLogBuffer C) =
           \<lparr>logs = drop (length tls - nat C) (entriesFrom 0 tls),
            currentIndex = length tls, maxLines = C\<rparr>"
proof (induction tls rule: rev_induct)
  case Nil
  show ?case by (simp add: appendLines_def newLogBuffer_def entriesFrom_def)
next
  case (snoc x tls)
  obtain now ln where x: "x = (now, ln)" by (cases x)
  show ?case
  proof (cases "length tls < nat C")
    case True
    then have "\<not> C < 1 + int (length tls)" by arith
    with True show ?thesis using assms
      by (simp add: x appendLines_snoc snoc.IH append_entry_def Let_def entriesFrom_snoc)
  next
    case False
    then have gt: "C < 1 + int (length tls)" using assms by arith
    from False have le: "nat C \<le> length tls" by simp
    have len: "length (drop (length tls - nat C) (entriesFrom 0 tls)) = nat C"
      using le by simp
    have "tl (drop (length tls - nat C) (entriesFrom 0 tls) @ [e]) =
            drop (Suc (length tls) - nat C) (entriesFrom 0 tls @ [e])" for e
    proof (cases "nat C = 0")
      case True
      then show ?thesis by simp
    next
      case False
      then have "length tls - nat C < length tls" using le by arith
      then have ne: "drop (length tls - nat C) (entriesFrom 0 tls) \<noteq> []" by simp
      have "tl (drop (length tls - nat C) (entriesFrom 0 tls) @ [e]) =
              tl (drop (length tls - nat C) (entriesFrom 0 tls)) @ [e]"
        using ne by (cases "drop (length tls - nat C) (entriesFrom 0 tls)") simp_all
      also have "\<dots> = drop (Suc (length tls - nat C)) (entriesFrom 0 tls) @ [e]"
        by (simp add: drop_Suc tl_drop)
      also have "\<dots> = drop (Suc (length tls) - nat C) (entriesFrom 0 tls @ [e])"
        using le False by (simp add: Suc_diff_le)
      finally show ?thesis .
    qed
    then show ?thesis using gt assms le
      by (simp add: x appendLines_snoc snoc.IH append_entry_def Let_def entriesFrom_snoc)
  qed
qed

lemma map_index_entriesFrom: "map index (entriesFrom k tls) = [k ..< k + length tls]"
proof -
  have "map index (entriesFrom k tls) = map fst (zip [k ..< k + length tls] tls)"
    by (simp add: entriesFrom_def case_prod_beta' o_def)
  then show ?thesis by simp
qed


lemma filter_ge_upt: "filter (\<lambda>i. m \<le> i) [a ..< n] = [max m a ..< n]"
proof (induction n)
  case 0
  show ?case by simp
next
  case (Suc n)
  show ?case
  proof (cases "a \<le> n")
    case True
    then show ?thesis using Suc by (auto simp: max_def)
  next
    case False
    then show ?thesis by simp
  qed
qed

lemma map_index_filter_from:
  assumes "map index es = [a ..< n]" and "0 \<le> k"
  shows "map index (filter (\<lambda>entry. k \<le> int (index entry)) es) = [max (nat k) a ..< n]"
proof -
  have "map index (filter (\<lambda>entry. k \<le> int (index entry)) es) =
          filter (\<lambda>i. k \<le> int i) (map index es)"
    by (simp add: filter_map o_def)
  also have "\<dots> = filter (\<lambda>i. nat k \<le> i) [a ..< n]"
    using assms by (simp add: nat_le_iff)
  finally show ?thesis by (simp add: filter_ge_upt)
qed

lemma getLogs_invalid:
  "k < 0 \<or> L \<le> 0 \<Longrightarrow> \<exists>e. getLogs (Some k) (Some L) b = Inl e \<and> isInvalidArgument e"
  by (auto simp: getLogs_def)

lemma getLogs_valid:
  "0 \<le> k \<Longrightarrow> 0 < L \<Longrightarrow>
     getLogs (Some k) (Some L) b =
       Inr (take (nat L) (filter (\<lambda>entry. k \<le> int (index entry)) (logs b)))"
  by (simp add: getLogs_def)

lemma upt_shift: "[a ..< Suc (a + n)] = a # [Suc a ..< Suc (a + n)]"
  by (simp add: upt_rec [of a] del: upt_Suc)

lemma maxLines_applyOp [simp]: "maxLines (applyOp op b) = maxLines b"
  by (cases op) (simp_all add: clear_def)

lemma entriesFrom_Nil [simp]: "entriesFrom k [] = []"
  by (simp add: entriesFrom_def)

lemma entriesFrom_Cons:
  "entriesFrom k ((now, ln) # tls) =
     \<lparr>line = ln, timestamp = now, index = k\<rparr> # entriesFrom (Suc k) tls"
  by (simp add: entriesFrom_def upt_shift del: upt_Suc)

lemma lastStored_append:
  "1 \<le> maxLines b \<Longrightarrow>
     lastStored (append_entry now ln b) = [\<lparr>line = ln, timestamp = now, index = currentIndex b\<rparr>]"
proof -
  assume m: "1 \<le> maxLines b"
  let ?e = "\<lparr>line = ln, timestamp = now, index = currentIndex b\<rparr>"
  show ?thesis
  proof (cases "logs b")
    case Nil
    with m show ?thesis by (simp add: append_entry_def Let_def lastStored_def)
  next
    case (Cons x xs)
    then have "tl (logs b @ [?e]) = xs @ [?e]" by simp
    with Cons show ?thesis
      by (cases xs) (simp_all add: append_entry_def Let_def lastStored_def)
  qed
qed

lemma appendedEntries_no_clear:
  "Clear \<notin> set ops \<Longrightarrow> 1 \<le> maxLines b \<Longrightarrow>
     appendedEntries ops b = entriesFrom (currentIndex b) (appendArgs ops)"
proof (induction ops arbitrary: b)
  case Nil
  show ?case by simp
next
  case (Cons op ops)
  then have IH: "\<And>b'. 1 \<le> maxLines b' \<Longrightarrow>
       appendedEntries ops b' = entriesFrom (currentIndex b') (appendArgs ops)"
    by simp
  show ?case
  proof (cases op)
    case (Append now ln)
    then show ?thesis
      using Cons.prems(2) by (simp add: IH lastStored_append entriesFrom_Cons)
  next
    case (GetLogs f l)
    then show ?thesis using Cons.prems(2) by (simp add: IH)
  next
    case (RecentLines n)
    then show ?thesis using Cons.prems(2) by (simp add: IH)
  next
    case Clear
    with Cons.prems show ?thesis by simp
  qed
qed

lemma length_appendArgs: "length (appendArgs ops) = length (filter isAppend ops)"
  by (induction ops rule: appendArgs.induct) simp_all

lemma applyOps_Nil [simp]: "applyOps [] b = b"
  by (simp add: applyOps_def)

lemma applyOps_Cons [simp]: "applyOps (op # ops) b = applyOps ops (applyOp op b)"
  by (simp add: applyOps_def)

lemma currentIndex_no_clear:
  "Clear \<notin> set ops \<Longrightarrow>
     currentIndex (applyOps ops b) = currentIndex b + length (filter isAppend ops)"
proof (induction ops arbitrary: b)
  case Nil
  show ?case by simp
next
  case (Cons op ops)
  then have IH: "\<And>b'. currentIndex (applyOps ops b') =
      currentIndex b' + length (filter isAppend ops)"
    by simp
  from Cons.prems show ?case
    by (cases op) (simp_all add: IH)
qed

lemma consecutive_new: "consecutive (newLogBuffer C)"
  by (simp add: consecutive_def newLogBuffer_def)

lemma consecutive_clear: "consecutive (clear b)"
  by (simp add: consecutive_def clear_def)

lemma consecutive_append:
  assumes "consecutive b"
  shows "consecutive (append_entry now ln b)"
proof -
  let ?n = "length (logs b)" and ?c = "currentIndex b"
  let ?e = "\<lparr>line = ln, timestamp = now, index = currentIndex b\<rparr>"
  from assms have le: "?n \<le> ?c" and ix: "map index (logs b) = [?c - ?n ..< ?c]"
    by (simp_all add: consecutive_def)
  have full: "map index (logs b @ [?e]) = [?c - ?n ..< Suc ?c]"
    using le ix by simp
  show ?thesis
  proof (cases "int (length (logs b @ [?e])) > maxLines b")
    case False
    then have "append_entry now ln b = b\<lparr>currentIndex := Suc ?c, logs := logs b @ [?e]\<rparr>"
      by (simp add: append_entry_def Let_def)
    then show ?thesis using le full by (simp add: consecutive_def Suc_diff_le)
  next
    case True
    then have eq: "append_entry now ln b = b\<lparr>currentIndex := Suc ?c, logs := tl (logs b @ [?e])\<rparr>"
      by (simp add: append_entry_def Let_def)
    have "map index (tl (logs b @ [?e])) = tl [?c - ?n ..< Suc ?c]"
      using full by (simp add: map_tl del: upt_Suc)
    also have "\<dots> = [Suc (?c - ?n) ..< Suc ?c]"
      using le by (simp add: upt_rec [of "?c - ?n"] del: upt_Suc)
    finally have "map index (tl (logs b @ [?e])) = [Suc ?c - ?n ..< Suc ?c]"
      using le by (simp add: Suc_diff_le)
    then show ?thesis using le by (simp add: eq consecutive_def)
  qed
qed

lemma consecutive_applyOp: "consecutive b \<Longrightarrow> consecutive (applyOp op b)"
  by (cases op) (simp_all add: consecutive_append consecutive_clear)

lemma consecutive_applyOps: "consecutive b \<Longrightarrow> consecutive (applyOps ops b)"
  by (induction ops arbitrary: b) (simp_all add: consecutive_applyOp)

lemma getLogs_all:
  "0 < L \<Longrightarrow> getLogs None (Some L) b = Inr (take (nat L) (logs b))"
  by (simp add: getLogs_def)

lemma getLogs_all_invalid:
  "L \<le> 0 \<Longrightarrow> \<exists>e. getLogs None (Some L) b = Inl e \<and> isInvalidArgument e"
  by (simp add: getLogs_def)

text \<open>
  Claim C8. A buffer of capacity \<open>C\<close> (a count, so \<open>0 \<le> C\<close>) that has had \<open>N > C\<close> lines
  appended since it was created holds \<open>C\<close> entries, its next index is \<open>N\<close>, and the
  entries are the last \<open>C\<close> appended, with the indices \<open>N - C\<close> to \<open>N - 1\<close> in that order.
  For every buffer, full or not, \<open>getLogs\<close> with \<open>fromIndex = k \<ge> 0\<close> and \<open>limit = L > 0\<close>
  returns the first \<open>L\<close> of the entries held whose index is at least \<open>k\<close>, in the order
  the buffer holds them (all entries when \<open>fromIndex\<close> is omitted), and it fails with an
  invalid-argument error when \<open>fromIndex\<close> is negative or \<open>limit\<close> is not positive. In a
  buffer reached from a new one by any run of operations the entries are held in index
  order, so the result has the indices from \<open>max k (next index - lines held)\<close> on, at
  most \<open>L\<close> of them.
\<close>

theorem logbuffer_retains_most_recent:
  "(0 \<le> C \<and> C < int (length tls) \<and> b = appendLines tls (newLogBuffer C) \<longrightarrow>
     int (getTotalLines b) = C \<and>
     getNextIndex b = length tls \<and>
     logs b = drop (length tls - nat C) (entriesFrom 0 tls) \<and>
     map index (logs b) = [length tls - nat C ..< length tls] \<and>
     (0 \<le> k \<and> 0 < L \<longrightarrow>
        (\<exists>r. getLogs (Some k) (Some L) b = Inr r \<and>
             r = take (nat L) (filter (\<lambda>entry. k \<le> int (index entry)) (logs b)) \<and>
             map index r = take (nat L) [max (nat k) (length tls - nat C) ..< length tls])) \<and>
     (k < 0 \<or> L \<le> 0 \<longrightarrow> (\<exists>e. getLogs (Some k) (Some L) b = Inl e \<and> isInvalidArgument e))) \<and>
   (0 \<le> k \<and> 0 < L \<longrightarrow>
      getLogs (Some k) (Some L) b' =
        Inr (take (nat L) (filter (\<lambda>entry. k \<le> int (index entry)) (logs b')))) \<and>
   (0 < L \<longrightarrow> getLogs None (Some L) b' = Inr (take (nat L) (logs b'))) \<and>
   (k < 0 \<or> L \<le> 0 \<longrightarrow> (\<exists>e. getLogs (Some k) (Some L) b' = Inl e \<and> isInvalidArgument e)) \<and>
   (L \<le> 0 \<longrightarrow> (\<exists>e. getLogs None (Some L) b' = Inl e \<and> isInvalidArgument e)) \<and>
   (0 \<le> k \<and> 0 < L \<and> b'' = applyOps ops (newLogBuffer C') \<longrightarrow>
      (\<exists>r. getLogs (Some k) (Some L) b'' = Inr r \<and>
           map index r =
             take (nat L) [max (nat k) (currentIndex b'' - length (logs b'')) ..< currentIndex b'']))"
proof -
  have full: "0 \<le> C \<and> C < int (length tls) \<and> b = appendLines tls (newLogBuffer C) \<longrightarrow>
     int (getTotalLines b) = C \<and>
     getNextIndex b = length tls \<and>
     logs b = drop (length tls - nat C) (entriesFrom 0 tls) \<and>
     map index (logs b) = [length tls - nat C ..< length tls] \<and>
     (0 \<le> k \<and> 0 < L \<longrightarrow>
        (\<exists>r. getLogs (Some k) (Some L) b = Inr r \<and>
             r = take (nat L) (filter (\<lambda>entry. k \<le> int (index entry)) (logs b)) \<and>
             map index r = take (nat L) [max (nat k) (length tls - nat C) ..< length tls])) \<and>
     (k < 0 \<or> L \<le> 0 \<longrightarrow> (\<exists>e. getLogs (Some k) (Some L) b = Inl e \<and> isInvalidArgument e))"
  proof
    assume h: "0 \<le> C \<and> C < int (length tls) \<and> b = appendLines tls (newLogBuffer C)"
    then have C: "0 \<le> C" and N: "C < int (length tls)"
      and b: "b = appendLines tls (newLogBuffer C)"
      by simp_all
    have lg: "logs b = drop (length tls - nat C) (entriesFrom 0 tls)"
      and ci: "currentIndex b = length tls"
      by (simp_all add: b appendLines_fresh [OF C])
    have le: "nat C \<le> length tls" using C N by arith
    have tot: "int (getTotalLines b) = C"
      using C le by (simp add: getTotalLines_def lg)
    have idx: "map index (logs b) = [length tls - nat C ..< length tls]"
      using le by (simp add: lg drop_map [symmetric] map_index_entriesFrom drop_upt)
    have valid: "0 \<le> k \<and> 0 < L \<longrightarrow>
        (\<exists>r. getLogs (Some k) (Some L) b = Inr r \<and>
             r = take (nat L) (filter (\<lambda>entry. k \<le> int (index entry)) (logs b)) \<and>
             map index r = take (nat L) [max (nat k) (length tls - nat C) ..< length tls])"
    proof
      assume kl: "0 \<le> k \<and> 0 < L"
      then have "map index (filter (\<lambda>entry. k \<le> int (index entry)) (logs b)) =
                   [max (nat k) (length tls - nat C) ..< length tls]"
        using map_index_filter_from [OF idx] by simp
      then show "\<exists>r. getLogs (Some k) (Some L) b = Inr r \<and>
             r = take (nat L) (filter (\<lambda>entry. k \<le> int (index entry)) (logs b)) \<and>
             map index r = take (nat L) [max (nat k) (length tls - nat C) ..< length tls]"
        using kl by (simp add: getLogs_valid take_map [symmetric])
    qed
    show "int (getTotalLines b) = C \<and>
     getNextIndex b = length tls \<and>
     logs b = drop (length tls - nat C) (entriesFrom 0 tls) \<and>
     map index (logs b) = [length tls - nat C ..< length tls] \<and>
     (0 \<le> k \<and> 0 < L \<longrightarrow>
        (\<exists>r. getLogs (Some k) (Some L) b = Inr r \<and>
             r = take (nat L) (filter (\<lambda>entry. k \<le> int (index entry)) (logs b)) \<and>
             map index r = take (nat L) [max (nat k) (length tls - nat C) ..< length tls])) \<and>
     (k < 0 \<or> L \<le> 0 \<longrightarrow> (\<exists>e. getLogs (Some k) (Some L) b = Inl e \<and> isInvalidArgument e))"
      using tot ci lg idx valid getLogs_invalid [of k L b]
      by (simp add: getNextIndex_def)
  qed
  have any1: "0 \<le> k \<and> 0 < L \<longrightarrow>
      getLogs (Some k) (Some L) b' =
        Inr (take (nat L) (filter (\<lambda>entry. k \<le> int (index entry)) (logs b')))"
    by (simp add: getLogs_valid)
  have any2: "0 < L \<longrightarrow> getLogs None (Some L) b' = Inr (take (nat L) (logs b'))"
    by (simp add: getLogs_all)
  have any3: "k < 0 \<or> L \<le> 0 \<longrightarrow>
      (\<exists>e. getLogs (Some k) (Some L) b' = Inl e \<and> isInvalidArgument e)"
    using getLogs_invalid [of k L b'] by blast
  have any4: "L \<le> 0 \<longrightarrow> (\<exists>e. getLogs None (Some L) b' = Inl e \<and> isInvalidArgument e)"
    using getLogs_all_invalid [of L b'] by blast
  have reach: "0 \<le> k \<and> 0 < L \<and> b'' = applyOps ops (newLogBuffer C') \<longrightarrow>
      (\<exists>r. getLogs (Some k) (Some L) b'' = Inr r \<and>
           map index r =
             take (nat L) [max (nat k) (currentIndex b'' - length (logs b'')) ..< currentIndex b''])"
  proof
    assume h: "0 \<le> k \<and> 0 < L \<and> b'' = applyOps ops (newLogBuffer C')"
    then have "consecutive b''"
      by (simp add: consecutive_applyOps consecutive_new)
    then have idx: "map index (logs b'') =
        [currentIndex b'' - length (logs b'') ..< currentIndex b'']"
      by (simp add: consecutive_def)
    from h have "map index (filter (\<lambda>entry. k \<le> int (index entry)) (logs b'')) =
        [max (nat k) (currentIndex b'' - length (logs b'')) ..< currentIndex b'']"
      using map_index_filter_from [OF idx] by simp
    then show "\<exists>r. getLogs (Some k) (Some L) b'' = Inr r \<and>
           map index r =
             take (nat L) [max (nat k) (currentIndex b'' - length (logs b'')) ..< currentIndex b'']"
      using h by (simp add: getLogs_valid take_map [symmetric])
  qed
  from full any1 any2 any3 any4 reach show ?thesis by (intro conjI)
qed

theorem logbuffer_retains_most_recent_witness:
  "(0::int) \<le> 2 \<and> 2 < int (length [(10, js ''a''), (11, js ''b''), (12, js ''c'')]) \<and>
   getTotalLines (appendLines [(10, js ''a''), (11, js ''b''), (12, js ''c'')] (newLogBuffer 2)) = 2 \<and>
   getNextIndex (appendLines [(10, js ''a''), (11, js ''b''), (12, js ''c'')] (newLogBuffer 2)) = 3 \<and>
   map index (logs (appendLines [(10, js ''a''), (11, js ''b''), (12, js ''c'')] (newLogBuffer 2))) = [1, 2] \<and>
   getLogs (Some 2) (Some 5)
      (appendLines [(10, js ''a''), (11, js ''b''), (12, js ''c'')] (newLogBuffer 2)) =
     Inr [\<lparr>line = js ''c'', timestamp = 12, index = 2\<rparr>] \<and>
   getLogs (Some 0) (Some 5) (appendLines [(10, js ''a''), (11, js ''b'')] (newLogBuffer 1000)) =
     Inr [\<lparr>line = js ''a'', timestamp = 10, index = 0\<rparr>,
          \<lparr>line = js ''b'', timestamp = 11, index = 1\<rparr>] \<and>
   getLogs None (Some 1) (appendLines [(10, js ''a''), (11, js ''b'')] (newLogBuffer 1000)) =
     Inr [\<lparr>line = js ''a'', timestamp = 10, index = 0\<rparr>] \<and>
   isl (getLogs (Some (- 1)) (Some 5) (appendLines [(10, js ''a''), (11, js ''b'')] (newLogBuffer 1000))) \<and>
   isl (getLogs None (Some 0) (appendLines [(10, js ''a''), (11, js ''b'')] (newLogBuffer 1000))) \<and>
   map index (projr (getLogs (Some 1) (Some 5)
      (applyOps [Append 10 (js ''a''), Append 11 (js ''b''), Append 12 (js ''c'')]
         (newLogBuffer 1000)))) = [1, 2]"
proof -
  note T = logbuffer_retains_most_recent
    [of 2 "[(10, js ''a''), (11, js ''b''), (12, js ''c'')]"
        "appendLines [(10, js ''a''), (11, js ''b''), (12, js ''c'')] (newLogBuffer 2)"]
  have a: "(0::int) \<le> 2 \<and> 2 < int (length [(10, js ''a''), (11, js ''b''), (12, js ''c'')]) \<and>
   getTotalLines (appendLines [(10, js ''a''), (11, js ''b''), (12, js ''c'')] (newLogBuffer 2)) = 2 \<and>
   getNextIndex (appendLines [(10, js ''a''), (11, js ''b''), (12, js ''c'')] (newLogBuffer 2)) = 3 \<and>
   map index (logs (appendLines [(10, js ''a''), (11, js ''b''), (12, js ''c'')] (newLogBuffer 2))) = [1, 2] \<and>
   getLogs (Some 2) (Some 5)
      (appendLines [(10, js ''a''), (11, js ''b''), (12, js ''c'')] (newLogBuffer 2)) =
     Inr [\<lparr>line = js ''c'', timestamp = 12, index = 2\<rparr>]"
    using T [of 2 5, THEN conjunct1]
    by (simp add: appendLines_def newLogBuffer_def append_entry_def getLogs_def
          getTotalLines_def getNextIndex_def entriesFrom_def)
  have b: "getLogs (Some 0) (Some 5) (appendLines [(10, js ''a''), (11, js ''b'')] (newLogBuffer 1000)) =
     Inr [\<lparr>line = js ''a'', timestamp = 10, index = 0\<rparr>,
          \<lparr>line = js ''b'', timestamp = 11, index = 1\<rparr>]"
    using T [of 0 5 "appendLines [(10, js ''a''), (11, js ''b'')] (newLogBuffer 1000)",
             THEN conjunct2, THEN conjunct1]
    by (simp add: appendLines_def newLogBuffer_def append_entry_def)
  have c: "getLogs None (Some 1) (appendLines [(10, js ''a''), (11, js ''b'')] (newLogBuffer 1000)) =
     Inr [\<lparr>line = js ''a'', timestamp = 10, index = 0\<rparr>]"
    using T [of 0 1 "appendLines [(10, js ''a''), (11, js ''b'')] (newLogBuffer 1000)",
             THEN conjunct2, THEN conjunct2, THEN conjunct1]
    by (simp add: appendLines_def newLogBuffer_def append_entry_def)
  have d: "isl (getLogs (Some (- 1)) (Some 5)
      (appendLines [(10, js ''a''), (11, js ''b'')] (newLogBuffer 1000)))"
    using T [of "- 1" 5 "appendLines [(10, js ''a''), (11, js ''b'')] (newLogBuffer 1000)",
             THEN conjunct2, THEN conjunct2, THEN conjunct2, THEN conjunct1]
    by auto
  have e: "isl (getLogs None (Some 0)
      (appendLines [(10, js ''a''), (11, js ''b'')] (newLogBuffer 1000)))"
    using T [of 0 0 "appendLines [(10, js ''a''), (11, js ''b'')] (newLogBuffer 1000)",
             THEN conjunct2, THEN conjunct2, THEN conjunct2, THEN conjunct2, THEN conjunct1]
    by auto
  have f: "map index (projr (getLogs (Some 1) (Some 5)
      (applyOps [Append 10 (js ''a''), Append 11 (js ''b''), Append 12 (js ''c'')]
         (newLogBuffer 1000)))) = [1, 2]"
    using T [of 1 5 _
               "applyOps [Append 10 (js ''a''), Append 11 (js ''b''), Append 12 (js ''c'')]
                  (newLogBuffer 1000)"
               "[Append 10 (js ''a''), Append 11 (js ''b''), Append 12 (js ''c'')]" 1000,
             THEN conjunct2, THEN conjunct2, THEN conjunct2, THEN conjunct2, THEN conjunct2]
    by (simp add: newLogBuffer_def append_entry_def getLogs_def)
  from a b c d e f show ?thesis by (intro conjI) simp_all
qed

text \<open>
  Claim C6, as stated, fails: \<open>clear\<close> sets the index counter back to zero, so the entry
  appended after a \<open>clear\<close> is stored with index \<open>0\<close>, as the first entry was.
\<close>

theorem index_reused_after_clear:
  "\<not> distinct (assignedIndices [Append 10 (js ''a''), Clear, Append 11 (js ''b'')] (newLogBuffer 1000)) \<and>
   appendedEntries [Append 10 (js ''a''), Clear, Append 11 (js ''b'')] (newLogBuffer 1000) =
     [\<lparr>line = js ''a'', timestamp = 10, index = 0\<rparr>,
      \<lparr>line = js ''b'', timestamp = 11, index = 0\<rparr>]"
  by (simp add: assignedIndices_def lastStored_def newLogBuffer_def clear_def append_entry_def)

text \<open>
  Claim C6, amended. In a buffer that stores entries (capacity at least one), over a run
  of appends, reads and recent-line reads without a \<open>clear\<close>, the entry each append
  stores holds the line and clock reading given and the next index: the stored indices
  are consecutive from the counter's value at the start of the run, so each is greater
  than every one stored before it in the run and none occurs twice; the counter ends
  that many higher. \<open>clear\<close> sets the counter to zero: the entries appended after it are
  stored with \<open>0, 1, 2, \<dots>\<close> again. Whatever the run, the entries held carry consecutive
  indices ending just below the counter.
\<close>

theorem indices_increase_between_clears:
  "Clear \<notin> set ops \<Longrightarrow> 1 \<le> maxLines b \<Longrightarrow>
     appendedEntries ops b = entriesFrom (currentIndex b) (appendArgs ops) \<and>
     assignedIndices ops b =
       [currentIndex b ..< currentIndex b + length (filter isAppend ops)] \<and>
     sorted_wrt (<) (assignedIndices ops b) \<and>
     distinct (assignedIndices ops b) \<and>
     getNextIndex (applyOps ops b) = currentIndex b + length (filter isAppend ops) \<and>
     getNextIndex (applyOp Clear b) = 0 \<and>
     appendedEntries (Clear # ops) b = entriesFrom 0 (appendArgs ops) \<and>
     assignedIndices (Clear # ops) b = [0 ..< length (filter isAppend ops)] \<and>
     (consecutive b \<longrightarrow> consecutive (applyOps ops' b))"
proof -
  assume nc: "Clear \<notin> set ops" and m: "1 \<le> maxLines b"
  have e: "appendedEntries ops b = entriesFrom (currentIndex b) (appendArgs ops)"
    by (rule appendedEntries_no_clear [OF nc m])
  have i: "assignedIndices ops b =
       [currentIndex b ..< currentIndex b + length (filter isAppend ops)]"
    by (simp add: assignedIndices_def e map_index_entriesFrom length_appendArgs)
  have m': "1 \<le> maxLines (clear b)" using m by (simp add: clear_def)
  have e0: "appendedEntries (Clear # ops) b = entriesFrom 0 (appendArgs ops)"
    using appendedEntries_no_clear [OF nc m'] by (simp add: clear_def)
  have i0: "assignedIndices (Clear # ops) b = [0 ..< length (filter isAppend ops)]"
    unfolding assignedIndices_def e0 by (simp add: map_index_entriesFrom length_appendArgs)
  have n: "getNextIndex (applyOps ops b) = currentIndex b + length (filter isAppend ops)"
    by (simp add: getNextIndex_def currentIndex_no_clear [OF nc])
  have c: "consecutive b \<longrightarrow> consecutive (applyOps ops' b)"
    by (simp add: consecutive_applyOps)
  have s: "sorted_wrt (<) (assignedIndices ops b)" "distinct (assignedIndices ops b)"
    by (simp_all add: i)
  have z: "getNextIndex (applyOp Clear b) = 0"
    by (simp add: getNextIndex_def clear_def)
  from e i s n z e0 i0 c show ?thesis by (intro conjI)
qed

theorem indices_increase_between_clears_witness:
  "Clear \<notin> set [Append 10 (js ''a''), GetLogs None None, Append 11 (js ''b''), RecentLines 1] \<and>
   1 \<le> maxLines (newLogBuffer 1) \<and>
   appendedEntries [Append 10 (js ''a''), GetLogs None None, Append 11 (js ''b''), RecentLines 1]
      (newLogBuffer 1) =
     [\<lparr>line = js ''a'', timestamp = 10, index = 0\<rparr>,
      \<lparr>line = js ''b'', timestamp = 11, index = 1\<rparr>] \<and>
   assignedIndices [Append 10 (js ''a''), GetLogs None None, Append 11 (js ''b''), RecentLines 1]
      (newLogBuffer 1) = [0, 1] \<and>
   assignedIndices [Clear, Append 10 (js ''a''), GetLogs None None, Append 11 (js ''b''), RecentLines 1]
      (appendLines [(1, js ''x''), (2, js ''y''), (3, js ''z'')] (newLogBuffer 2)) = [0, 1] \<and>
   assignedIndices [Append 10 (js ''a''), GetLogs None None, Append 11 (js ''b''), RecentLines 1]
      (appendLines [(1, js ''x''), (2, js ''y''), (3, js ''z'')] (newLogBuffer 2)) = [3, 4] \<and>
   consecutive (newLogBuffer 1)"
proof -
  let ?ops = "[Append 10 (js ''a''), GetLogs None None, Append 11 (js ''b''), RecentLines 1]"
  let ?b = "appendLines [(1, js ''x''), (2, js ''y''), (3, js ''z'')] (newLogBuffer 2)"
  have nc: "Clear \<notin> set ?ops" by simp
  have m1: "1 \<le> maxLines (newLogBuffer 1)" by (simp add: newLogBuffer_def)
  have m2: "1 \<le> maxLines ?b" by (simp add: appendLines_def newLogBuffer_def)
  have ci: "currentIndex ?b = 3" by (simp add: appendLines_def newLogBuffer_def)
  have a: "appendedEntries ?ops (newLogBuffer 1) =
     [\<lparr>line = js ''a'', timestamp = 10, index = 0\<rparr>,
      \<lparr>line = js ''b'', timestamp = 11, index = 1\<rparr>]"
    using indices_increase_between_clears [OF nc m1, THEN conjunct1]
    by (simp add: newLogBuffer_def entriesFrom_def)
  have b: "assignedIndices ?ops (newLogBuffer 1) = [0, 1]"
    using indices_increase_between_clears [OF nc m1, THEN conjunct2, THEN conjunct1]
    by (simp add: newLogBuffer_def)
  have t: "assignedIndices (Clear # ?ops) ?b = [0 ..< length (filter isAppend ?ops)]"
    using indices_increase_between_clears [OF nc m2] by blast
  have c: "assignedIndices (Clear # ?ops) ?b = [0, 1]"
    unfolding t by simp
  have u: "assignedIndices ?ops ?b =
      [currentIndex ?b ..< currentIndex ?b + length (filter isAppend ?ops)]"
    using indices_increase_between_clears [OF nc m2] by blast
  have d: "assignedIndices ?ops ?b = [3, 4]"
    unfolding u ci by (simp add: upt_rec)
  have e: "consecutive (newLogBuffer 1)" by (rule consecutive_new)
  from nc m1 a b c d e show ?thesis by (intro conjI)
qed

section \<open>Properties of the session manager\<close>

lemmas path_eval = resolve_def normalizeString_def join_def normalize_def js_def slash_def
  dotdot_def startsWith_def endsWith_def existsSync_def isDirectory_def suffix_to_prefix

lemma createSession_cases:
  "createSession env P kind sm = (r, sm') \<Longrightarrow>
     (isl r \<and> isAccessDenied (projl r)) = (\<not> startsWith (resolve (env_cwd env) [P]) (allowedPathPrefix sm))"
  by (auto simp: createSession_def Let_def managerLogger_def split: if_splits sum.splits option.splits)

lemma createSession_validation_frame:
  "createSession env P kind sm = (Inl e, sm') \<Longrightarrow> isPathValidationError e \<Longrightarrow>
     simulatorCalls sm' = simulatorCalls sm \<and> sessionState sm' = sessionState sm"
  by (auto simp: createSession_def Let_def managerLogger_def split: if_splits sum.splits option.splits)

lemma createSession_failure_frame:
  "createSession env P kind sm = (Inl e, sm') \<Longrightarrow> sessionState sm' = sessionState sm"
  by (auto simp: createSession_def Let_def managerLogger_def split: if_splits sum.splits option.splits)

text \<open>
  Claim C1. \<open>createSession\<close> fails with the access-denied error exactly when the resolved
  form of its path argument does not start, as a string, with the configured prefix; the
  error names the prefix and the resolved path. When \<open>createSession\<close> fails with one of
  its validation errors, no simulator call has been made and the registry is as before.
\<close>

theorem createSession_access_denied_iff:
  "createSession env P kind sm = (r, sm') \<Longrightarrow>
     ((\<exists>e. r = Inl e \<and> isAccessDenied e) \<longleftrightarrow>
        \<not> startsWith (resolve (env_cwd env) [P]) (allowedPathPrefix sm)) \<and>
     (\<not> startsWith (resolve (env_cwd env) [P]) (allowedPathPrefix sm) \<longrightarrow>
        r = Inl (AccessDenied (allowedPathPrefix sm) (resolve (env_cwd env) [P]))) \<and>
     (\<forall>e. r = Inl e \<and> isPathValidationError e \<longrightarrow>
        simulatorCalls sm' = simulatorCalls sm \<and> sessionState sm' = sessionState sm)"
proof -
  assume c: "createSession env P kind sm = (r, sm')"
  have a: "(\<exists>e. r = Inl e \<and> isAccessDenied e) \<longleftrightarrow>
        \<not> startsWith (resolve (env_cwd env) [P]) (allowedPathPrefix sm)"
    using createSession_cases [OF c] by (cases r) auto
  have b: "\<not> startsWith (resolve (env_cwd env) [P]) (allowedPathPrefix sm) \<longrightarrow>
        r = Inl (AccessDenied (allowedPathPrefix sm) (resolve (env_cwd env) [P]))"
    using c by (auto simp: createSession_def Let_def managerLogger_def)
  have d: "\<forall>e. r = Inl e \<and> isPathValidationError e \<longrightarrow>
        simulatorCalls sm' = simulatorCalls sm \<and> sessionState sm' = sessionState sm"
    using c createSession_validation_frame by blast
  show ?thesis using a b d by blast
qed

theorem createSession_access_denied_iff_witness:
  "createSession exampleCreateEnv (js ''/Users/alice/../../etc'') None
       (newSessionManager (Some (js ''/Users/''))) =
     (Inl (AccessDenied (js ''/Users/'') (js ''/etc'')),
      managerLogger INFO ''Creating session'' (newSessionManager (Some (js ''/Users/'')))) \<and>
   \<not> startsWith (resolve (env_cwd exampleCreateEnv) [js ''/Users/alice/../../etc''])
        (allowedPathPrefix (newSessionManager (Some (js ''/Users/'')))) \<and>
   simulatorCalls (managerLogger INFO ''Creating session'' (newSessionManager (Some (js ''/Users/'')))) = [] \<and>
   sessionState (managerLogger INFO ''Creating session'' (newSessionManager (Some (js ''/Users/'')))) = []"
proof -
  have c: "createSession exampleCreateEnv (js ''/Users/alice/../../etc'') None
       (newSessionManager (Some (js ''/Users/''))) =
     (Inl (AccessDenied (js ''/Users/'') (js ''/etc'')),
      managerLogger INFO ''Creating session'' (newSessionManager (Some (js ''/Users/''))))"
    by (simp add: createSession_def exampleCreateEnv_def newSessionManager_def managerLogger_def
          path_eval)
  show ?thesis
    using createSession_access_denied_iff [OF c] c
    by (simp add: newSessionManager_def managerLogger_def)
qed

text \<open>
  The sibling \<open>/Users/alice-evil\<close> of the prefix \<open>/Users/alice\<close> passes the check, and
  the session is created.
\<close>

lemma sibling_passes_access_check:
  "fst (createSession exampleCreateEnv (js ''/Users/alice-evil'') None
       (newSessionManager (Some (js ''/Users/alice'')))) =
   Inr \<lparr>info_id = js ''session-1'', info_worktreePath = js ''/Users/alice-evil'',
        info_simulatorUdid = js ''UDID-1'', info_deviceType = js ''iPhone 16 Pro'',
        info_createdAt = 1000\<rparr>"
  by (simp add: createSession_def exampleCreateEnv_def newSessionManager_def managerLogger_def
          path_eval exampleFs_def toInfo_def Let_def)


text \<open>
  Claim C5, as stated, fails: for the absolute path \<open>/Users/alice/app/\<close>, which resolves
  to the project directory \<open>/Users/alice/app\<close>, the session is created and the path
  returned is the argument with its trailing separator, not the resolved path.
\<close>

theorem createSession_keeps_unresolved_path:
  "map_sum id info_worktreePath
     (fst (createSession exampleCreateEnv (js ''/Users/alice/app/'') None (newSessionManager None))) =
     Inr (js ''/Users/alice/app/'') \<and>
   resolve (env_cwd exampleCreateEnv) [js ''/Users/alice/app/''] = js ''/Users/alice/app'' \<and>
   startsWith (js ''/Users/alice/app'') (allowedPathPrefix (newSessionManager None)) \<and>
   isDirectory (env_fs exampleCreateEnv) (js ''/Users/alice/app'') \<and>
   existsSync (env_fs exampleCreateEnv) (join [js ''/Users/alice/app'', js ''pubspec.yaml''])"
  by (simp add: createSession_def exampleCreateEnv_def newSessionManager_def managerLogger_def
          path_eval exampleFs_def toInfo_def Let_def)

lemma get_set_same [simp]: "sessionState_get k (sessionState_set k v r) = Some v"
  by (induction r) (auto simp: sessionState_get_def)

text \<open>
  Claim C5, amended. When the resolved path starts with the prefix, is a directory and
  holds \<open>pubspec.yaml\<close>, and the simulator is created and booted, \<open>createSession\<close>
  succeeds, and the path in the \<open>SessionInfo\<close> returned and in the session stored is the
  path argument as it was given; it is the resolved path when the argument is already
  in resolved form.
\<close>

theorem createSession_returns_given_path:
  "startsWith (resolve (env_cwd env) [P]) (allowedPathPrefix sm) \<Longrightarrow>
   isDirectory (env_fs env) (resolve (env_cwd env) [P]) \<Longrightarrow>
   existsSync (env_fs env) (join [resolve (env_cwd env) [P], js ''pubspec.yaml'']) \<Longrightarrow>
   createSimulatorResult env = Inr udid \<Longrightarrow>
   bootSimulatorResult env = None \<Longrightarrow>
     (\<exists>info sm'. createSession env P kind sm = (Inr info, sm') \<and>
        info_worktreePath info = P \<and>
        map_option session_worktreePath (getSession (info_id info) sm') = Some P \<and>
        (resolve (env_cwd env) [P] = P \<longrightarrow>
           info_worktreePath info = resolve (env_cwd env) [P]))"
  by (simp add: createSession_def Let_def managerLogger_def toInfo_def getSession_def
        existsSync_def isDirectory_def)

theorem createSession_returns_given_path_witness:
  "startsWith (resolve (env_cwd exampleCreateEnv) [js ''/Users/alice/app''])
      (allowedPathPrefix (newSessionManager None)) \<and>
   isDirectory (env_fs exampleCreateEnv) (resolve (env_cwd exampleCreateEnv) [js ''/Users/alice/app'']) \<and>
   existsSync (env_fs exampleCreateEnv)
      (join [resolve (env_cwd exampleCreateEnv) [js ''/Users/alice/app''], js ''pubspec.yaml'']) \<and>
   createSimulatorResult exampleCreateEnv = Inr (js ''UDID-1'') \<and>
   bootSimulatorResult exampleCreateEnv = None \<and>
   resolve (env_cwd exampleCreateEnv) [js ''/Users/alice/app''] = js ''/Users/alice/app'' \<and>
   map_sum id info_worktreePath
     (fst (createSession exampleCreateEnv (js ''/Users/alice/app'') None (newSessionManager None))) =
     Inr (js ''/Users/alice/app'')"
proof -
  have h1: "startsWith (resolve (env_cwd exampleCreateEnv) [js ''/Users/alice/app''])
      (allowedPathPrefix (newSessionManager None))"
    by (simp add: exampleCreateEnv_def newSessionManager_def path_eval)
  have h2: "isDirectory (env_fs exampleCreateEnv)
      (resolve (env_cwd exampleCreateEnv) [js ''/Users/alice/app''])"
    by (simp add: exampleCreateEnv_def exampleFs_def path_eval)
  have h3: "existsSync (env_fs exampleCreateEnv)
      (join [resolve (env_cwd exampleCreateEnv) [js ''/Users/alice/app''], js ''pubspec.yaml''])"
    by (simp add: exampleCreateEnv_def exampleFs_def path_eval)
  have h4: "createSimulatorResult exampleCreateEnv = Inr (js ''UDID-1'')"
    by (simp add: exampleCreateEnv_def)
  have h5: "bootSimulatorResult exampleCreateEnv = None"
    by (simp add: exampleCreateEnv_def)
  have h6: "resolve (env_cwd exampleCreateEnv) [js ''/Users/alice/app''] = js ''/Users/alice/app''"
    by (simp add: exampleCreateEnv_def path_eval)
  from createSession_returns_given_path [OF h1 h2 h3 h4 h5, of None]
  obtain info sm' where
    "createSession exampleCreateEnv (js ''/Users/alice/app'') None (newSessionManager None) =
       (Inr info, sm')" and "info_worktreePath info = js ''/Users/alice/app''"
    by blast
  then have "map_sum id info_worktreePath
     (fst (createSession exampleCreateEnv (js ''/Users/alice/app'') None (newSessionManager None))) =
     Inr (js ''/Users/alice/app'')"
    by simp
  then show ?thesis using h1 h2 h3 h4 h5 h6 by blast
qed

lemma get_delete_same [simp]: "sessionState_get k (sessionState_delete k r) = None"
  by (induction r) (auto simp: sessionState_get_def sessionState_delete_def)

lemma delete_set_same [simp]:
  "sessionState_delete k (sessionState_set k v r) = sessionState_delete k r"
  by (induction r) (auto simp: sessionState_delete_def)

lemma managerLogger_fields [simp]:
  "sessionState (managerLogger lv msg sm) = sessionState sm"
  "simulatorCalls (managerLogger lv msg sm) = simulatorCalls sm"
  "allowedPathPrefix (managerLogger lv msg sm) = allowedPathPrefix sm"
  "managerLogged (managerLogger lv msg sm) = managerLogged sm @ [(lv, msg)]"
  by (simp_all add: managerLogger_def)

lemma endSession_unknown:
  "sessionState_get sid (sessionState sm) = None \<Longrightarrow>
     endSession env sid sm = (Inl (SessionNotFound sid), managerLogger INFO ''Ending session'' sm)"
  by (simp add: endSession_def Let_def)

lemma endSession_known:
  assumes "sessionState_get sid (sessionState sm) = Some session"
  shows "\<exists>sm'. endSession env sid sm = (Inr (), sm') \<and>
           sessionState sm' = sessionState_delete sid (sessionState sm) \<and>
           simulatorCalls sm' = simulatorCalls sm @
             [ShutdownSimulator (session_simulatorUdid session),
              DeleteSimulator (session_simulatorUdid session)] \<and>
           (shutdownSimulatorResult env \<noteq> None \<longrightarrow>
              (WARN, ''Failed to shutdown simulator'') \<in> set (managerLogged sm')) \<and>
           (deleteSimulatorResult env \<noteq> None \<longrightarrow>
              (WARN, ''Failed to delete simulator'') \<in> set (managerLogged sm')) \<and>
           (\<forall>fpm. flutterProcessManager session = Some fpm \<and>
                  isl (fst (cleanup (cleanupEnv env) fpm)) \<longrightarrow>
              (WARN, ''Failed to cleanup Flutter process'') \<in> set (managerLogged sm'))"
  using assms
  by (auto simp: endSession_def Let_def split: option.splits sum.splits prod.splits)


lemma delete_absent:
  "k \<notin> fst ` set r \<Longrightarrow> sessionState_delete k r = r"
  by (induction r) (auto simp: sessionState_delete_def)

lemma cleanupLoop_all:
  "sessionState sm = r \<Longrightarrow> wfRegistry r \<Longrightarrow>
     sessionState (cleanupLoop envs (sessionState_list r) sm) = [] \<and>
     simulatorCalls (cleanupLoop envs (sessionState_list r) sm) =
       simulatorCalls sm @ teardownCalls r"
proof (induction r arbitrary: sm)
  case Nil
  then show ?case by (simp add: sessionState_list_def teardownCalls_def)
next
  case (Cons kv r)
  obtain k v where kv: "kv = (k, v)" by (cases kv)
  from Cons.prems have idk: "session_id v = k" and nk: "k \<notin> fst ` set r" and wf: "wfRegistry r"
    by (auto simp: wfRegistry_def kv)
  have g: "sessionState_get k (sessionState sm) = Some v"
    using Cons.prems by (simp add: sessionState_get_def kv)
  from endSession_known [OF g, of "envs k"] obtain sm1 where
    e: "endSession (envs k) k sm = (Inr (), sm1)" and
    st: "sessionState sm1 = sessionState_delete k (sessionState sm)" and
    sc: "simulatorCalls sm1 = simulatorCalls sm @
             [ShutdownSimulator (session_simulatorUdid v),
              DeleteSimulator (session_simulatorUdid v)]"
    by blast
  have st': "sessionState sm1 = r"
    using st Cons.prems(1) nk delete_absent [OF nk]
    by (simp add: kv sessionState_delete_def)
  have step: "cleanupLoop envs (sessionState_list (kv # r)) sm =
                cleanupLoop envs (sessionState_list r) sm1"
    by (simp add: sessionState_list_def kv toInfo_def idk e)
  show ?case
    using Cons.IH [OF st' wf] sc
    by (simp add: step [unfolded kv] teardownCalls_def kv)
qed

text \<open>
  Claim C10. For a registered session, \<open>endSession\<close> returns without an error and the
  session is gone from the registry, whatever the process manager's cleanup, the
  simulator shutdown and the simulator deletion do; shutdown and deletion are both
  called, and each failure leaves a warning in the log. For an unknown identifier
  \<open>endSession\<close> fails with session-not-found, and that is the only error it raises.
  \<open>cleanupSessions\<close> ends every session of the registry: afterwards the registry is empty
  and every session's simulator has had its shutdown and deletion called, whatever failed
  on the way.
\<close>

theorem endSession_removes_whatever_fails:
  "(sessionState_get sid (sessionState sm) = Some session \<longrightarrow>
      (\<exists>sm'. endSession env sid sm = (Inr (), sm') \<and>
         getSession sid sm' = None \<and>
         sessionState sm' = sessionState_delete sid (sessionState sm) \<and>
         simulatorCalls sm' = simulatorCalls sm @
           [ShutdownSimulator (session_simulatorUdid session),
            DeleteSimulator (session_simulatorUdid session)] \<and>
         (shutdownSimulatorResult env \<noteq> None \<longrightarrow>
            (WARN, ''Failed to shutdown simulator'') \<in> set (managerLogged sm')) \<and>
         (deleteSimulatorResult env \<noteq> None \<longrightarrow>
            (WARN, ''Failed to delete simulator'') \<in> set (managerLogged sm')) \<and>
         (\<forall>fpm. flutterProcessManager session = Some fpm \<and>
                isl (fst (cleanup (cleanupEnv env) fpm)) \<longrightarrow>
            (WARN, ''Failed to cleanup Flutter process'') \<in> set (managerLogged sm')))) \<and>
   (sessionState_get sid (sessionState sm) = None \<longrightarrow>
      fst (endSession env sid sm) = Inl (SessionNotFound sid)) \<and>
   (\<forall>e. fst (endSession env sid sm) = Inl e \<longrightarrow>
      e = SessionNotFound sid \<and> getSession sid sm = None) \<and>
   (wfRegistry (sessionState sm) \<longrightarrow>
      sessionState (cleanupSessions envs sm) = [] \<and>
      simulatorCalls (cleanupSessions envs sm) =
        simulatorCalls sm @ teardownCalls (sessionState sm))"
proof -
  have known: "sessionState_get sid (sessionState sm) = Some session \<longrightarrow>
      (\<exists>sm'. endSession env sid sm = (Inr (), sm') \<and>
         getSession sid sm' = None \<and>
         sessionState sm' = sessionState_delete sid (sessionState sm) \<and>
         simulatorCalls sm' = simulatorCalls sm @
           [ShutdownSimulator (session_simulatorUdid session),
            DeleteSimulator (session_simulatorUdid session)] \<and>
         (shutdownSimulatorResult env \<noteq> None \<longrightarrow>
            (WARN, ''Failed to shutdown simulator'') \<in> set (managerLogged sm')) \<and>
         (deleteSimulatorResult env \<noteq> None \<longrightarrow>
            (WARN, ''Failed to delete simulator'') \<in> set (managerLogged sm')) \<and>
         (\<forall>fpm. flutterProcessManager session = Some fpm \<and>
                isl (fst (cleanup (cleanupEnv env) fpm)) \<longrightarrow>
            (WARN, ''Failed to cleanup Flutter process'') \<in> set (managerLogged sm')))"
  proof
    assume g: "sessionState_get sid (sessionState sm) = Some session"
    from endSession_known [OF g, of env] obtain sm' where
      h: "endSession env sid sm = (Inr (), sm')"
         "sessionState sm' = sessionState_delete sid (sessionState sm)"
         "simulatorCalls sm' = simulatorCalls sm @
           [ShutdownSimulator (session_simulatorUdid session),
            DeleteSimulator (session_simulatorUdid session)]"
         "shutdownSimulatorResult env \<noteq> None \<longrightarrow>
            (WARN, ''Failed to shutdown simulator'') \<in> set (managerLogged sm')"
         "deleteSimulatorResult env \<noteq> None \<longrightarrow>
            (WARN, ''Failed to delete simulator'') \<in> set (managerLogged sm')"
         "\<forall>fpm. flutterProcessManager session = Some fpm \<and>
                isl (fst (cleanup (cleanupEnv env) fpm)) \<longrightarrow>
            (WARN, ''Failed to cleanup Flutter process'') \<in> set (managerLogged sm')"
      by blast
    have "getSession sid sm' = None" by (simp add: getSession_def h(2))
    with h show "\<exists>sm'. endSession env sid sm = (Inr (), sm') \<and>
         getSession sid sm' = None \<and>
         sessionState sm' = sessionState_delete sid (sessionState sm) \<and>
         simulatorCalls sm' = simulatorCalls sm @
           [ShutdownSimulator (session_simulatorUdid session),
            DeleteSimulator (session_simulatorUdid session)] \<and>
         (shutdownSimulatorResult env \<noteq> None \<longrightarrow>
            (WARN, ''Failed to shutdown simulator'') \<in> set (managerLogged sm')) \<and>
         (deleteSimulatorResult env \<noteq> None \<longrightarrow>
            (WARN, ''Failed to delete simulator'') \<in> set (managerLogged sm')) \<and>
         (\<forall>fpm. flutterProcessManager session = Some fpm \<and>
                isl (fst (cleanup (cleanupEnv env) fpm)) \<longrightarrow>
            (WARN, ''Failed to cleanup Flutter process'') \<in> set (managerLogged sm'))"
      by blast
  qed
  have unknown: "sessionState_get sid (sessionState sm) = None \<longrightarrow>
      fst (endSession env sid sm) = Inl (SessionNotFound sid)"
    by (simp add: endSession_unknown)
  have only: "\<forall>e. fst (endSession env sid sm) = Inl e \<longrightarrow>
      e = SessionNotFound sid \<and> getSession sid sm = None"
  proof (cases "sessionState_get sid (sessionState sm)")
    case None
    then show ?thesis by (simp add: endSession_unknown getSession_def)
  next
    case (Some s)
    from endSession_known [OF Some, of env] show ?thesis by auto
  qed
  have all: "wfRegistry (sessionState sm) \<longrightarrow>
      sessionState (cleanupSessions envs sm) = [] \<and>
      simulatorCalls (cleanupSessions envs sm) =
        simulatorCalls sm @ teardownCalls (sessionState sm)"
    using cleanupLoop_all [of "managerLogger INFO ''Cleaning up all sessions'' sm"
        "sessionState sm" envs]
    by (simp add: cleanupSessions_def Let_def)
  show ?thesis using known unknown only all by blast
qed

theorem endSession_removes_whatever_fails_witness:
  "sessionState_get (js ''s2'') (sessionState exampleManager) =
     Some (exampleSession (js ''s2'') (js ''UDID-2'') (Some exampleRunning)) \<and>
   shutdownSimulatorResult (exampleEndEnvs (js ''s2'')) \<noteq> None \<and>
   isl (fst (cleanup (cleanupEnv (exampleEndEnvs (js ''s2''))) exampleRunning)) \<and>
   fst (endSession (exampleEndEnvs (js ''s2'')) (js ''s2'') exampleManager) = Inr () \<and>
   getSession (js ''s2'') (snd (endSession (exampleEndEnvs (js ''s2'')) (js ''s2'') exampleManager)) = None \<and>
   (WARN, ''Failed to shutdown simulator'')
      \<in> set (managerLogged (snd (endSession (exampleEndEnvs (js ''s2'')) (js ''s2'') exampleManager))) \<and>
   (WARN, ''Failed to cleanup Flutter process'')
      \<in> set (managerLogged (snd (endSession (exampleEndEnvs (js ''s2'')) (js ''s2'') exampleManager))) \<and>
   sessionState_get (js ''s9'') (sessionState exampleManager) = None \<and>
   fst (endSession (exampleEndEnvs (js ''s9'')) (js ''s9'') exampleManager) = Inl (SessionNotFound (js ''s9'')) \<and>
   wfRegistry (sessionState exampleManager) \<and>
   sessionState (cleanupSessions exampleEndEnvs exampleManager) = [] \<and>
   simulatorCalls (cleanupSessions exampleEndEnvs exampleManager) =
     [ShutdownSimulator (js ''UDID-1''), DeleteSimulator (js ''UDID-1''),
      ShutdownSimulator (js ''UDID-2''), DeleteSimulator (js ''UDID-2''),
      ShutdownSimulator (js ''UDID-3''), DeleteSimulator (js ''UDID-3'')]"
proof -
  have g: "sessionState_get (js ''s2'') (sessionState exampleManager) =
     Some (exampleSession (js ''s2'') (js ''UDID-2'') (Some exampleRunning))"
    by (simp add: exampleManager_def sessionState_get_def js_def)
  have sh: "shutdownSimulatorResult (exampleEndEnvs (js ''s2'')) \<noteq> None"
    by (simp add: exampleEndEnvs_def)
  have pr: "process exampleRunning \<noteq> None"
    by (simp add: exampleRunning_def start_def newFlutterProcessManager_def logger_def
          validateTarget_def validateFlavor_def validateAdditionalArgs_def exampleOptions_def Let_def)
  have cl: "isl (fst (cleanup (cleanupEnv (exampleEndEnvs (js ''s2''))) exampleRunning))"
    using pr
    by (auto simp: cleanup_def stop_def stdinWrite_def exampleEndEnvs_def logger_def Let_def
          split: option.splits)
  have un: "sessionState_get (js ''s9'') (sessionState exampleManager) = None"
    by (simp add: exampleManager_def sessionState_get_def js_def)
  have wf: "wfRegistry (sessionState exampleManager)"
    by (simp add: exampleManager_def wfRegistry_def exampleSession_def js_def)
  have td: "teardownCalls (sessionState exampleManager) =
     [ShutdownSimulator (js ''UDID-1''), DeleteSimulator (js ''UDID-1''),
      ShutdownSimulator (js ''UDID-2''), DeleteSimulator (js ''UDID-2''),
      ShutdownSimulator (js ''UDID-3''), DeleteSimulator (js ''UDID-3'')]"
    by (simp add: exampleManager_def teardownCalls_def exampleSession_def)
  have sc: "simulatorCalls exampleManager = []"
    by (simp add: exampleManager_def)
  have fl: "flutterProcessManager (exampleSession (js ''s2'') (js ''UDID-2'') (Some exampleRunning)) =
              Some exampleRunning"
    by (simp add: exampleSession_def)
  from endSession_removes_whatever_fails
         [of "js ''s2''" exampleManager
             "exampleSession (js ''s2'') (js ''UDID-2'') (Some exampleRunning)"
             "exampleEndEnvs (js ''s2'')" exampleEndEnvs]
       g sh cl fl wf td sc
  have a: "fst (endSession (exampleEndEnvs (js ''s2'')) (js ''s2'') exampleManager) = Inr () \<and>
   getSession (js ''s2'') (snd (endSession (exampleEndEnvs (js ''s2'')) (js ''s2'') exampleManager)) = None \<and>
   (WARN, ''Failed to shutdown simulator'')
      \<in> set (managerLogged (snd (endSession (exampleEndEnvs (js ''s2'')) (js ''s2'') exampleManager))) \<and>
   (WARN, ''Failed to cleanup Flutter process'')
      \<in> set (managerLogged (snd (endSession (exampleEndEnvs (js ''s2'')) (js ''s2'') exampleManager))) \<and>
   sessionState (cleanupSessions exampleEndEnvs exampleManager) = [] \<and>
   simulatorCalls (cleanupSessions exampleEndEnvs exampleManager) =
     [ShutdownSimulator (js ''UDID-1''), DeleteSimulator (js ''UDID-1''),
      ShutdownSimulator (js ''UDID-2''), DeleteSimulator (js ''UDID-2''),
      ShutdownSimulator (js ''UDID-3''), DeleteSimulator (js ''UDID-3'')]"
    by auto
  have b: "fst (endSession (exampleEndEnvs (js ''s9'')) (js ''s9'') exampleManager) =
             Inl (SessionNotFound (js ''s9''))"
    by (simp add: endSession_unknown [OF un])
  show ?thesis using g sh cl un wf a b by blast
qed

section \<open>Properties of the process manager\<close>

lemma logger_fields [simp]:
  "process (logger lv msg m) = process m"
  "flutterProcess (logger lv msg m) = flutterProcess m"
  "logBuffer (logger lv msg m) = logBuffer m"
  "logSubscribers (logger lv msg m) = logSubscribers m"
  "pendingTimers (logger lv msg m) = pendingTimers m"
  "spawnCalls (logger lv msg m) = spawnCalls m"
  "delivered (logger lv msg m) = delivered m"
  "logged (logger lv msg m) = logged m @ [(lv, msg)]"
  by (simp_all add: logger_def)

lemma validateTarget_not_running: "validateTarget fs wd options \<noteq> Some AlreadyRunning"
  by (simp add: validateTarget_def Let_def)

lemma validateFlavor_not_running: "validateFlavor options \<noteq> Some AlreadyRunning"
  by (simp add: validateFlavor_def)

lemma checkArgs_error:
  "checkArgs as = Some e \<Longrightarrow> (\<exists>a \<in> set as. e = InvalidDartDefine a \<or> e = InvalidFlutterArgument a)"
  by (induction as) (auto simp: Let_def split: if_splits)

lemma validateAdditionalArgs_not_running: "validateAdditionalArgs options \<noteq> Some AlreadyRunning"
  by (auto simp: validateAdditionalArgs_def split: option.splits dest: checkArgs_error)

lemma start_attached: "process m \<noteq> None \<Longrightarrow> start fs wd now sp options m = (Inl AlreadyRunning, m)"
  by (simp add: start_def)

lemma start_detached_result:
  "process m = None \<Longrightarrow> fst (start fs wd now sp options m) \<noteq> Inl AlreadyRunning"
  using validateTarget_not_running [of fs wd options] validateFlavor_not_running [of options]
    validateAdditionalArgs_not_running [of options]
  by (auto simp: start_def Let_def split: option.splits)

lemma start_success_attaches:
  "start fs wd now sp options m = (Inr fp, m') \<Longrightarrow> process m' \<noteq> None"
  by (auto simp: start_def Let_def split: option.splits if_splits)

lemma start_failure_frame:
  "start fs wd now sp options m = (Inl e, m') \<Longrightarrow>
     process m' = process m \<and> spawnCalls m' = spawnCalls m \<and> flutterProcess m' = flutterProcess m"
  by (auto simp: start_def Let_def split: option.splits if_splits)

lemma process_handleExit [simp]: "process (handleExit now code signal m) = None"
  by (simp add: handleExit_def Let_def split: option.splits)

lemma process_notifySubscribers [simp]: "process (notifySubscribers subs ln m) = process m"
  by (induction subs arbitrary: m) (simp_all add: Let_def split: option.splits)

lemma process_detectStatusChanges [simp]: "process (detectStatusChanges ln m) = process m"
  by (simp add: detectStatusChanges_def split: option.splits)

lemma process_processLine [simp]: "process (processLine now ln m) = process m"
  by (simp add: processLine_def Let_def)

lemma process_fold_processLine [simp]: "process (fold (processLine now) lns m) = process m"
  by (induction lns arbitrary: m) simp_all

lemma process_handleOutput [simp]: "process (handleOutput now data m) = process m"
  by (simp add: handleOutput_def)

lemma process_reloadTimerFired [simp]: "process (reloadTimerFired m) = process m"
  by (simp add: reloadTimerFired_def Let_def split: option.splits)

lemma attached_stop [simp]: "(process (snd (stop fault m)) = None) = (process m = None)"
  by (simp add: stop_def stdinWrite_def Let_def split: option.splits)

lemma attached_hotReload [simp]: "(process (snd (hotReload fault m)) = None) = (process m = None)"
  by (simp add: hotReload_def stdinWrite_def Let_def split: option.splits)

lemma attached_hotRestart [simp]: "(process (snd (hotRestart fault m)) = None) = (process m = None)"
  by (simp add: hotRestart_def stdinWrite_def Let_def split: option.splits)

lemma attached_kill [simp]: "(process (snd (kill sg answer m)) = None) = (process m = None)"
  by (simp add: kill_def Let_def split: option.splits)

lemma process_misc [simp]:
  "process (subscribeToLogs sb m) = process m"
  "process (unsubscribe sb m) = process m"
  "process (clearLogs m) = process m"
  by (simp_all add: subscribeToLogs_def unsubscribe_def clearLogs_def)

lemma handleEvents_Nil [simp]: "handleEvents [] m = m"
  by (simp add: handleEvents_def)

lemma handleEvents_Cons [simp]:
  "handleEvents ((now, ev) # evs) m = handleEvents evs (handleEvent now ev m)"
  by (simp add: handleEvents_def)

lemma attached_handleEvents:
  "(process (handleEvents evs m) = None) = (process m = None \<or> list_ex isExit evs)"
proof (induction evs arbitrary: m)
  case Nil
  show ?case by simp
next
  case (Cons x evs)
  obtain now ev where x: "x = (now, ev)" by (cases x)
  show ?case
    unfolding x by (cases ev) (simp_all add: Cons.IH)
qed

lemma attached_cleanup:
  "(process (snd (cleanup env m)) = None) =
     (process m = None \<or>
      \<not> (isl (fst (stop (stopFault env) (m\<lparr>logSubscribers := []\<rparr>))) \<or>
         \<not> list_ex isExit (duringWait env)))"
proof (cases "process m")
  case None
  then show ?thesis by (simp add: cleanup_def Let_def)
next
  case (Some h)
  show ?thesis
  proof (cases "stopFault env")
    case (Some e)
    with \<open>process m = Some h\<close> show ?thesis
      by (simp add: cleanup_def Let_def stop_def stdinWrite_def)
  next
    case None
    with \<open>process m = Some h\<close> show ?thesis
      by (cases "waitEnds env")
         (simp_all add: cleanup_def Let_def stop_def stdinWrite_def attached_handleEvents)
  qed
qed


lemma performAll_Cons [simp]: "performAll (a # acts) m = performAll acts (perform a m)"
  by (simp add: performAll_def)

lemma attached_history:
  "(process m \<noteq> None) = g \<Longrightarrow>
     (process (performAll acts m) \<noteq> None) = startedNotExited g acts m"
proof (induction acts arbitrary: m g)
  case Nil
  then show ?case by (simp add: performAll_def)
next
  case (Cons a acts)
  show ?case
  proof (cases a)
    case (Start fs wd now sp options)
    have "(process (perform a m) \<noteq> None) =
            (if isl (fst (start fs wd now sp options m)) then g else True)"
    proof (cases "start fs wd now sp options m")
      case (Pair r m')
      show ?thesis
      proof (cases r)
        case (Inl e)
        with Pair start_failure_frame [of fs wd now sp options m e m'] Cons.prems
        show ?thesis by (simp add: Start)
      next
        case (Inr fp)
        with Pair start_success_attaches [of fs wd now sp options m fp m']
        show ?thesis by (simp add: Start)
      qed
    qed
    from Cons.IH [OF this] show ?thesis by (simp add: Start)
  next
    case (Deliver now ev)
    show ?thesis
    proof (cases ev)
      case (Output data)
      have "(process (perform a m) \<noteq> None) = g"
        using Cons.prems by (simp add: Deliver Output)
      from Cons.IH [OF this] show ?thesis by (simp add: Deliver Output)
    next
      case (Exit code signal)
      have "(process (perform a m) \<noteq> None) = False"
        by (simp add: Deliver Exit)
      from Cons.IH [OF this] show ?thesis by (simp add: Deliver Exit)
    next
      case TimerFired
      have "(process (perform a m) \<noteq> None) = g"
        using Cons.prems by (simp add: Deliver TimerFired)
      from Cons.IH [OF this] show ?thesis by (simp add: Deliver TimerFired)
    qed
  next
    case (Stop fault)
    have "(process (perform a m) \<noteq> None) = g" using Cons.prems by (simp add: Stop)
    from Cons.IH [OF this] show ?thesis by (simp add: Stop)
  next
    case (HotReload fault)
    have "(process (perform a m) \<noteq> None) = g" using Cons.prems by (simp add: HotReload)
    from Cons.IH [OF this] show ?thesis by (simp add: HotReload)
  next
    case (HotRestart fault)
    have "(process (perform a m) \<noteq> None) = g" using Cons.prems by (simp add: HotRestart)
    from Cons.IH [OF this] show ?thesis by (simp add: HotRestart)
  next
    case (Kill sg answer)
    have "(process (perform a m) \<noteq> None) = g" using Cons.prems by (simp add: Kill)
    from Cons.IH [OF this] show ?thesis by (simp add: Kill)
  next
    case (SubscribeToLogs sb)
    have "(process (perform a m) \<noteq> None) = g" using Cons.prems by (simp add: SubscribeToLogs)
    from Cons.IH [OF this] show ?thesis by (simp add: SubscribeToLogs)
  next
    case (Unsubscribe sb)
    have "(process (perform a m) \<noteq> None) = g" using Cons.prems by (simp add: Unsubscribe)
    from Cons.IH [OF this] show ?thesis by (simp add: Unsubscribe)
  next
    case ClearLogs
    have "(process (perform a m) \<noteq> None) = g" using Cons.prems by (simp add: ClearLogs)
    from Cons.IH [OF this] show ?thesis by (simp add: ClearLogs)
  next
    case (Cleanup env)
    have "(process (perform a m) \<noteq> None) =
            (g \<and> (isl (fst (stop (stopFault env) (m\<lparr>logSubscribers := []\<rparr>))) \<or>
                  \<not> list_ex isExit (duringWait env)))"
      using Cons.prems attached_cleanup [of env m] by (auto simp: Cleanup)
    from Cons.IH [OF this] show ?thesis by (simp add: Cleanup)
  qed
qed

text \<open>
  Claim C9. \<open>start\<close> fails with the already-running error exactly when a subprocess
  handle is attached. A \<open>start\<close> that succeeds attaches the handle, a \<open>start\<close> that
  fails leaves it as it was, and the exit handler releases it, after which \<open>start\<close> does
  not fail with already-running. Over any history of calls and events on a new manager,
  the handle is attached exactly when a \<open>start\<close> has succeeded and the exit handler has
  not run since.
\<close>

theorem start_already_running_iff_attached:
  "(fst (start fs wd now sp options m) = Inl AlreadyRunning \<longleftrightarrow> process m \<noteq> None) \<and>
   (\<forall>fp m'. start fs wd now sp options m = (Inr fp, m') \<longrightarrow> process m' \<noteq> None) \<and>
   (\<forall>e m'. start fs wd now sp options m = (Inl e, m') \<longrightarrow> process m' = process m) \<and>
   process (handleExit now code signal m) = None \<and>
   fst (start fs wd now sp options (handleExit now code signal m)) \<noteq> Inl AlreadyRunning \<and>
   (process (performAll acts (newFlutterProcessManager n)) \<noteq> None \<longleftrightarrow>
      startedNotExited False acts (newFlutterProcessManager n)) \<and>
   (fst (start fs wd now sp options (performAll acts (newFlutterProcessManager n))) = Inl AlreadyRunning
      \<longleftrightarrow> startedNotExited False acts (newFlutterProcessManager n))"
proof -
  have a: "fst (start fs wd now sp options m') = Inl AlreadyRunning \<longleftrightarrow> process m' \<noteq> None" for m'
  proof (cases "process m'")
    case None
    then show ?thesis using start_detached_result [of m' fs wd now sp options] by simp
  next
    case (Some h)
    then show ?thesis by (simp add: start_attached)
  qed
  have b: "\<forall>fp m'. start fs wd now sp options m = (Inr fp, m') \<longrightarrow> process m' \<noteq> None"
    using start_success_attaches by blast
  have c: "\<forall>e m'. start fs wd now sp options m = (Inl e, m') \<longrightarrow> process m' = process m"
    using start_failure_frame by blast
  have d: "process (handleExit now code signal m) = None" by simp
  have e: "fst (start fs wd now sp options (handleExit now code signal m)) \<noteq> Inl AlreadyRunning"
    using a [of "handleExit now code signal m"] d by simp
  have f: "process (performAll acts (newFlutterProcessManager n)) \<noteq> None \<longleftrightarrow>
      startedNotExited False acts (newFlutterProcessManager n)"
    by (rule attached_history) (simp add: newFlutterProcessManager_def)
  have g: "fst (start fs wd now sp options (performAll acts (newFlutterProcessManager n))) = Inl AlreadyRunning
      \<longleftrightarrow> startedNotExited False acts (newFlutterProcessManager n)"
    using a [of "performAll acts (newFlutterProcessManager n)"] f by blast
  from a [of m] b c d e f g show ?thesis by (intro conjI)
qed

theorem start_already_running_iff_attached_witness:
  "start exampleFs (js ''/srv/mcp'') 2000 (Some 4242) exampleOptions (newFlutterProcessManager 1000) =
     (Inr \<lparr>pid = 4242, status = Running, startedAt = 2000, stoppedAt = None, exitCode = None\<rparr>,
      exampleRunning) \<and>
   process exampleRunning \<noteq> None \<and>
   start exampleFs (js ''/srv/mcp'') 2000 (Some 4242) exampleOptions exampleRunning =
     (Inl AlreadyRunning, exampleRunning) \<and>
   fst (start exampleFs (js ''/srv/mcp'') 2000 (Some 4242) exampleOptions
          (handleExit 2000 (Some 0) None exampleRunning)) \<noteq> Inl AlreadyRunning \<and>
   startedNotExited False
     [Start exampleFs (js ''/srv/mcp'') 2000 (Some 4242) exampleOptions,
      Deliver 2100 (Output (js ''Syncing files'')),
      Stop None]
     (newFlutterProcessManager 1000) \<and>
   fst (start exampleFs (js ''/srv/mcp'') 2000 (Some 4242) exampleOptions
          (performAll
             [Start exampleFs (js ''/srv/mcp'') 2000 (Some 4242) exampleOptions,
              Deliver 2100 (Output (js ''Syncing files'')),
              Stop None]
             (newFlutterProcessManager 1000))) = Inl AlreadyRunning"
proof -
  have s1: "start exampleFs (js ''/srv/mcp'') 2000 (Some 4242) exampleOptions
              (newFlutterProcessManager 1000) =
     (Inr \<lparr>pid = 4242, status = Running, startedAt = 2000, stoppedAt = None, exitCode = None\<rparr>,
      exampleRunning)"
    by (simp add: exampleRunning_def start_def validateTarget_def validateFlavor_def
          validateAdditionalArgs_def buildArgs_def exampleOptions_def newFlutterProcessManager_def
          logger_def Let_def)
  have h: "startedNotExited False
     [Start exampleFs (js ''/srv/mcp'') 2000 (Some 4242) exampleOptions,
      Deliver 2100 (Output (js ''Syncing files'')),
      Stop None]
     (newFlutterProcessManager 1000)"
    by (simp add: s1)
  have t1: "process exampleRunning \<noteq> None"
    using start_already_running_iff_attached
      [of exampleFs "js ''/srv/mcp''" 2000 "Some 4242" exampleOptions "newFlutterProcessManager 1000"]
      s1 by blast
  have t2: "fst (start exampleFs (js ''/srv/mcp'') 2000 (Some 4242) exampleOptions exampleRunning) =
              Inl AlreadyRunning"
    using start_already_running_iff_attached
      [of exampleFs "js ''/srv/mcp''" 2000 "Some 4242" exampleOptions exampleRunning] t1
    by blast
  have t3: "start exampleFs (js ''/srv/mcp'') 2000 (Some 4242) exampleOptions exampleRunning =
     (Inl AlreadyRunning, exampleRunning)"
    using t1 by (simp add: start_attached)
  have t4: "fst (start exampleFs (js ''/srv/mcp'') 2000 (Some 4242) exampleOptions
          (handleExit 2000 (Some 0) None exampleRunning)) \<noteq> Inl AlreadyRunning"
    using start_already_running_iff_attached
      [of exampleFs "js ''/srv/mcp''" 2000 "Some 4242" exampleOptions exampleRunning
          "Some 0" None]
    by blast
  have t5: "fst (start exampleFs (js ''/srv/mcp'') 2000 (Some 4242) exampleOptions
          (performAll
             [Start exampleFs (js ''/srv/mcp'') 2000 (Some 4242) exampleOptions,
              Deliver 2100 (Output (js ''Syncing files'')),
              Stop None]
             (newFlutterProcessManager 1000))) = Inl AlreadyRunning"
    using start_already_running_iff_attached
      [of exampleFs "js ''/srv/mcp''" 2000 "Some 4242" exampleOptions _ _ _
          "[Start exampleFs (js ''/srv/mcp'') 2000 (Some 4242) exampleOptions,
            Deliver 2100 (Output (js ''Syncing files'')), Stop None]" 1000]
      h by blast
  show ?thesis using s1 t1 t3 t4 h t5 by blast
qed

text \<open>
  What the target check of \<open>start\<close> compares: the resolved target with the resolved
  project path, as strings.
\<close>

lemma start_target_outside_prefix:
  "process m = None \<Longrightarrow> truthy (target options) \<Longrightarrow>
   \<not> startsWith (resolve wd [worktreePath options, the (target options)])
                 (resolve wd [worktreePath options]) \<Longrightarrow>
     start fs wd now sp options m =
       (Inl (TargetOutsideProject (the (target options))),
        logger INFO ''Starting Flutter process'' m)"
  by (simp add: start_def validateTarget_def Let_def)

text \<open>
  Claim C2: the code at the failing input. For the project \<open>/Users/alice/app\<close> the target
  \<open>../app-evil/main.dart\<close> resolves to \<open>/Users/alice/app-evil/main.dart\<close>, a file in
  another directory; \<open>start\<close> raises no error and spawns the subprocess with that target.
\<close>

theorem start_accepts_target_in_sibling_directory:
  "resolve (js ''/srv/mcp'') [js ''/Users/alice/app'', js ''../app-evil/main.dart''] =
     js ''/Users/alice/app-evil/main.dart'' \<and>
   start exampleFs (js ''/srv/mcp'') 2000 (Some 4242)
     (exampleOptions\<lparr>target := Some (js ''../app-evil/main.dart'')\<rparr>)
     (newFlutterProcessManager 1000) =
   (Inr \<lparr>pid = 4242, status = Running, startedAt = 2000, stoppedAt = None, exitCode = None\<rparr>,
    \<lparr>process = Some \<lparr>command = js ''flutter'',
                      args = [js ''run'', js ''-d'', js ''UDID-2'', js ''-t'',
                              js ''../app-evil/main.dart''],
                      cwd = js ''/Users/alice/app'', processPid = Some 4242,
                      stdinWritten = [], stdinEnded = False, signalsSent = []\<rparr>,
     flutterProcess = Some \<lparr>pid = 4242, status = Running, startedAt = 2000,
                             stoppedAt = None, exitCode = None\<rparr>,
     logBuffer = newLogBuffer 1000, logSubscribers = [], pendingTimers = 0,
     spawnCalls = [(js ''flutter'',
                    [js ''run'', js ''-d'', js ''UDID-2'', js ''-t'', js ''../app-evil/main.dart''],
                    js ''/Users/alice/app'')],
     delivered = [],
     logged = [(INFO, ''Starting Flutter process''), (INFO, ''Flutter process started'')]\<rparr>)"
  by (simp add: start_def validateTarget_def validateFlavor_def validateAdditionalArgs_def
        buildArgs_def exampleOptions_def newFlutterProcessManager_def logger_def exampleFs_def
        Let_def path_eval)

text \<open>The target \<open>../../etc/passwd\<close> is refused.\<close>

lemma start_rejects_passwd:
  "fst (start exampleFs (js ''/srv/mcp'') 2000 (Some 4242)
     (exampleOptions\<lparr>target := Some (js ''../../etc/passwd'')\<rparr>)
     (newFlutterProcessManager 1000)) = Inl (TargetOutsideProject (js ''../../etc/passwd''))"
  by (simp add: start_def validateTarget_def validateFlavor_def validateAdditionalArgs_def
        buildArgs_def exampleOptions_def newFlutterProcessManager_def logger_def exampleFs_def
        Let_def path_eval)

lemma exampleRunning_eq:
  "exampleRunning =
    \<lparr>process = Some \<lparr>command = js ''flutter'',
                      args = [js ''run'', js ''-d'', js ''UDID-2''],
                      cwd = js ''/Users/alice/app'', processPid = Some 4242,
                      stdinWritten = [], stdinEnded = False, signalsSent = []\<rparr>,
     flutterProcess = Some \<lparr>pid = 4242, status = Running, startedAt = 2000,
                             stoppedAt = None, exitCode = None\<rparr>,
     logBuffer = newLogBuffer 1000, logSubscribers = [], pendingTimers = 0,
     spawnCalls = [(js ''flutter'', [js ''run'', js ''-d'', js ''UDID-2''], js ''/Users/alice/app'')],
     delivered = [],
     logged = [(INFO, ''Starting Flutter process''), (INFO, ''Flutter process started'')]\<rparr>"
  by (simp add: exampleRunning_def start_def validateTarget_def validateFlavor_def
        validateAdditionalArgs_def buildArgs_def exampleOptions_def newFlutterProcessManager_def
        logger_def Let_def)

text \<open>The exit handler sets \<open>Stopped\<close> for exit code \<open>0\<close> and \<open>Failed\<close> otherwise.\<close>

lemma handleExit_sets_terminal_status:
  "flutterProcess m = Some fp \<Longrightarrow>
     map_option status (flutterProcess (handleExit now code signal m)) =
       Some (if code = Some 0 then Stopped else Failed)"
  by (simp add: handleExit_def Let_def)

text \<open>
  Claim C4: the code at the failing input. A running subprocess prints a reload marker
  and exits with code \<open>0\<close>; the exit handler sets the status to \<open>Stopped\<close> and releases
  the handle. The timeout set at the marker then runs and sets the status to \<open>Running\<close>,
  with no subprocess attached and no new \<open>start\<close>.
\<close>

theorem stale_reload_timer_revives_exited_process:
  "map_option status (getStatus (handleEvents
      [(2100, Output (js ''Reloaded 1 of 520 libraries in 300ms.'')),
       (2200, Exit (Some 0) None)] exampleRunning)) = Some Stopped \<and>
   process (handleEvents
      [(2100, Output (js ''Reloaded 1 of 520 libraries in 300ms.'')),
       (2200, Exit (Some 0) None),
       (3100, TimerFired)] exampleRunning) = None \<and>
   map_option status (getStatus (handleEvents
      [(2100, Output (js ''Reloaded 1 of 520 libraries in 300ms.'')),
       (2200, Exit (Some 0) None),
       (3100, TimerFired)] exampleRunning)) = Some Running"
  by (simp add: exampleRunning_eq handleEvents_def handleOutput_def processLine_def trim_def
        isWhiteSpace_def isLineTerminator_def detectStatusChanges_def handleExit_def
        reloadTimerFired_def getStatus_def logger_def append_entry_def newLogBuffer_def
        js_def Let_def)

subsection \<open>Additional arguments\<close>

lemma identChar_not_eq: "isIdentChar c \<Longrightarrow> c \<noteq> 61"
  by (auto simp: isIdentChar_def isLetter_def isDigit_def)

lemma identStart_identChar: "isIdentStart c \<Longrightarrow> isIdentChar c"
  by (auto simp: isIdentStart_def isIdentChar_def)

lemma takeWhile_key:
  assumes "list_all isIdentChar ks"
  shows "takeWhile (\<lambda>c. c \<noteq> 61) (ks @ 61 # v) = ks"
    and "dropWhile (\<lambda>c. c \<noteq> 61) (ks @ 61 # v) = 61 # v"
    and "dropWhile isIdentChar (ks @ 61 # v) = 61 # v"
proof -
  have ne: "\<And>x. x \<in> set ks \<Longrightarrow> x \<noteq> 61"
    using assms identChar_not_eq by (auto simp: list_all_iff)
  have id: "\<And>x. x \<in> set ks \<Longrightarrow> isIdentChar x"
    using assms by (auto simp: list_all_iff)
  have n61: "\<not> isIdentChar 61" using identChar_not_eq by blast
  show "takeWhile (\<lambda>c. c \<noteq> 61) (ks @ 61 # v) = ks"
    using ne by (simp add: takeWhile_append2)
  show "dropWhile (\<lambda>c. c \<noteq> 61) (ks @ 61 # v) = 61 # v"
    using ne by (simp add: dropWhile_append2)
  show "dropWhile isIdentChar (ks @ 61 # v) = 61 # v"
    using id n61 by (simp add: dropWhile_append2)
qed

lemma matchesDartDefine_iff:
  "matchesDartDefine s \<longleftrightarrow>
     (dropWhile (\<lambda>c. c \<noteq> 61) s \<noteq> [] \<and>
      isIdentifier (takeWhile (\<lambda>c. c \<noteq> 61) s) \<and>
      list_all (\<lambda>c. \<not> isLineTerminator c) (drop 1 (dropWhile (\<lambda>c. c \<noteq> 61) s)))"
proof
  assume m: "matchesDartDefine s"
  then obtain c cs v where s: "s = c # cs" and c: "isIdentStart c"
    and d: "dropWhile isIdentChar cs = 61 # v"
    and v: "list_all (\<lambda>x. \<not> isLineTerminator x) v"
    by (auto simp: matchesDartDefine_def split: list.splits)
  define ks where "ks = takeWhile isIdentChar cs"
  have cs: "cs = ks @ 61 # v"
    using d takeWhile_dropWhile_id [of isIdentChar cs] by (simp add: ks_def)
  have ks: "list_all isIdentChar (c # ks)"
    using c identStart_identChar by (auto simp: ks_def list_all_iff dest: set_takeWhileD)
  have s': "s = (c # ks) @ 61 # v" by (simp add: s cs)
  show "dropWhile (\<lambda>c. c \<noteq> 61) s \<noteq> [] \<and>
      isIdentifier (takeWhile (\<lambda>c. c \<noteq> 61) s) \<and>
      list_all (\<lambda>c. \<not> isLineTerminator c) (drop 1 (dropWhile (\<lambda>c. c \<noteq> 61) s))"
    unfolding s' takeWhile_key(1) [OF ks] takeWhile_key(2) [OF ks]
    using c ks v by (simp add: isIdentifier_def)
next
  assume r: "dropWhile (\<lambda>c. c \<noteq> 61) s \<noteq> [] \<and>
      isIdentifier (takeWhile (\<lambda>c. c \<noteq> 61) s) \<and>
      list_all (\<lambda>c. \<not> isLineTerminator c) (drop 1 (dropWhile (\<lambda>c. c \<noteq> 61) s))"
  define key where "key = takeWhile (\<lambda>c. c \<noteq> 61) s"
  define rest where "rest = dropWhile (\<lambda>c. c \<noteq> 61) s"
  from r have rne: "rest \<noteq> []" by (simp add: rest_def)
  then have "\<not> (hd rest \<noteq> 61)" unfolding rest_def by (rule hd_dropWhile)
  with rne obtain v where rest: "rest = 61 # v" by (cases rest) auto
  from r obtain c ks where key: "key = c # ks" and c: "isIdentStart c"
    and ks: "list_all isIdentChar ks"
    by (auto simp: isIdentifier_def key_def split: list.splits)
  have s: "s = c # (ks @ 61 # v)"
    using takeWhile_dropWhile_id [of "\<lambda>c. c \<noteq> 61" s]
    by (simp add: key_def [symmetric] rest_def [symmetric] key rest)
  from r have v: "list_all (\<lambda>c. \<not> isLineTerminator c) v"
    by (simp add: rest_def [symmetric] rest)
  show "matchesDartDefine s"
    unfolding s using c v by (simp add: matchesDartDefine_def takeWhile_key(3) [OF ks])
qed

lemma allowed_not_define: "arg \<in> set ALLOWED_ARGS \<Longrightarrow> \<not> startsWith arg (js ''--dart-define='')"
  by (auto simp: ALLOWED_ARGS_def startsWith_def js_def)

lemma acceptedArg_code:
  "acceptedArg arg \<longleftrightarrow>
     (arg \<in> set ALLOWED_ARGS \<or>
      (startsWith arg (js ''--dart-define='') \<and>
       matchesDartDefine (drop (length (js ''--dart-define='')) arg)))"
  by (auto simp: acceptedArg_def hasDartDefineForm_def dartDefineKey_def dartDefineValue_def
        matchesDartDefine_iff)

lemma checkArgs_None_iff: "checkArgs as = None \<longleftrightarrow> list_all acceptedArg as"
  by (induction as) (auto simp: acceptedArg_code Let_def)

lemma checkArgs_first_refused:
  "\<not> list_all acceptedArg as \<Longrightarrow>
     \<exists>pre a post. as = pre @ a # post \<and> list_all acceptedArg pre \<and> \<not> acceptedArg a \<and>
       (checkArgs as = Some (InvalidDartDefine a) \<or> checkArgs as = Some (InvalidFlutterArgument a))"
proof (induction as)
  case Nil
  then show ?case by simp
next
  case (Cons x as)
  show ?case
  proof (cases "acceptedArg x")
    case True
    with Cons.prems have "\<not> list_all acceptedArg as" by simp
    from Cons.IH [OF this] obtain pre a post where
      h: "as = pre @ a # post" "list_all acceptedArg pre" "\<not> acceptedArg a"
         "checkArgs as = Some (InvalidDartDefine a) \<or> checkArgs as = Some (InvalidFlutterArgument a)"
      by blast
    have "checkArgs (x # as) = checkArgs as"
      using True by (auto simp: acceptedArg_code Let_def)
    with h True have "x # as = (x # pre) @ a # post \<and> list_all acceptedArg (x # pre) \<and>
        \<not> acceptedArg a \<and>
        (checkArgs (x # as) = Some (InvalidDartDefine a) \<or>
         checkArgs (x # as) = Some (InvalidFlutterArgument a))"
      by simp
    then show ?thesis by blast
  next
    case False
    then have "checkArgs (x # as) = Some (InvalidDartDefine x) \<or>
               checkArgs (x # as) = Some (InvalidFlutterArgument x)"
      by (auto simp: acceptedArg_code Let_def)
    with False have "x # as = [] @ x # as \<and> list_all acceptedArg [] \<and> \<not> acceptedArg x \<and>
        (checkArgs (x # as) = Some (InvalidDartDefine x) \<or>
         checkArgs (x # as) = Some (InvalidFlutterArgument x))"
      by simp
    then show ?thesis by blast
  qed
qed

lemma hasDartDefineForm_iff:
  "hasDartDefineForm arg \<longleftrightarrow>
     (\<exists>key v. arg = js ''--dart-define='' @ key @ 61 # v \<and> isIdentifier key)"
proof
  assume h: "hasDartDefineForm arg"
  define s where "s = drop (length (js ''--dart-define='')) arg"
  from h have p: "arg = js ''--dart-define='' @ s"
    by (auto simp: hasDartDefineForm_def startsWith_def prefix_def s_def)
  from h have rne: "dropWhile (\<lambda>c. c \<noteq> 61) s \<noteq> []"
    by (simp add: hasDartDefineForm_def s_def)
  then have "\<not> (hd (dropWhile (\<lambda>c. c \<noteq> 61) s) \<noteq> 61)" by (rule hd_dropWhile)
  with rne obtain v where rest: "dropWhile (\<lambda>c. c \<noteq> 61) s = 61 # v"
    by (cases "dropWhile (\<lambda>c. c \<noteq> 61) s") auto
  have "s = takeWhile (\<lambda>c. c \<noteq> 61) s @ 61 # v"
    using takeWhile_dropWhile_id [of "\<lambda>c. c \<noteq> 61" s] rest by simp
  with p h show "\<exists>key v. arg = js ''--dart-define='' @ key @ 61 # v \<and> isIdentifier key"
    by (auto simp: hasDartDefineForm_def dartDefineKey_def s_def [symmetric])
next
  assume "\<exists>key v. arg = js ''--dart-define='' @ key @ 61 # v \<and> isIdentifier key"
  then obtain key v where a: "arg = js ''--dart-define='' @ key @ 61 # v" and k: "isIdentifier key"
    by blast
  from k have ks: "list_all isIdentChar key"
    by (auto simp: isIdentifier_def identStart_identChar split: list.splits)
  show "hasDartDefineForm arg"
    using k by (simp add: hasDartDefineForm_def dartDefineKey_def a startsWith_def
        takeWhile_key(1) [OF ks] takeWhile_key(2) [OF ks])
qed


lemma dartDefineValue_split:
  "isIdentifier key \<Longrightarrow> dartDefineValue (js ''--dart-define='' @ key @ 61 # v) = v"
proof -
  assume k: "isIdentifier key"
  then have ks: "list_all isIdentChar key"
    by (auto simp: isIdentifier_def identStart_identChar split: list.splits)
  show ?thesis
    by (simp add: dartDefineValue_def takeWhile_key(2) [OF ks])
qed

lemma acceptedArg_iff:
  "acceptedArg arg \<longleftrightarrow>
     (arg \<in> set ALLOWED_ARGS \<or>
      (\<exists>key v. arg = js ''--dart-define='' @ key @ 61 # v \<and> isIdentifier key \<and>
         list_all (\<lambda>c. \<not> isLineTerminator c) v))"
proof -
  have "(hasDartDefineForm arg \<and> list_all (\<lambda>c. \<not> isLineTerminator c) (dartDefineValue arg)) \<longleftrightarrow>
      (\<exists>key v. arg = js ''--dart-define='' @ key @ 61 # v \<and> isIdentifier key \<and>
         list_all (\<lambda>c. \<not> isLineTerminator c) v)"
  proof
    assume h: "hasDartDefineForm arg \<and> list_all (\<lambda>c. \<not> isLineTerminator c) (dartDefineValue arg)"
    then obtain key v where a: "arg = js ''--dart-define='' @ key @ 61 # v" and k: "isIdentifier key"
      unfolding hasDartDefineForm_iff by blast
    have "dartDefineValue arg = v"
      unfolding a by (rule dartDefineValue_split [OF k])
    with h have "list_all (\<lambda>c. \<not> isLineTerminator c) v" by simp
    with a k show "\<exists>key v. arg = js ''--dart-define='' @ key @ 61 # v \<and> isIdentifier key \<and>
         list_all (\<lambda>c. \<not> isLineTerminator c) v"
      by (intro exI conjI)
  next
    assume "\<exists>key v. arg = js ''--dart-define='' @ key @ 61 # v \<and> isIdentifier key \<and>
         list_all (\<lambda>c. \<not> isLineTerminator c) v"
    then obtain key v where a: "arg = js ''--dart-define='' @ key @ 61 # v" and k: "isIdentifier key"
      and v: "list_all (\<lambda>c. \<not> isLineTerminator c) v"
      by blast
    have dv: "dartDefineValue arg = v"
      unfolding a by (rule dartDefineValue_split [OF k])
    have "\<exists>key v. arg = js ''--dart-define='' @ key @ 61 # v \<and> isIdentifier key"
      using a k by (intro exI conjI)
    then have "hasDartDefineForm arg" unfolding hasDartDefineForm_iff .
    then show "hasDartDefineForm arg \<and>
        list_all (\<lambda>c. \<not> isLineTerminator c) (dartDefineValue arg)"
      using v dv by simp
  qed
  then show ?thesis unfolding acceptedArg_def by simp
qed

text \<open>
  Claim C3, as stated, fails: \<open>--dart-define=FOO=a\nb\<close>, whose value holds a line feed,
  has the form \<open>--dart-define=KEY=VALUE\<close> with the identifier \<open>FOO\<close> as key, and \<open>start\<close>
  refuses it, since \<open>.\<close> in the regular expression matches no line terminator.
\<close>

theorem start_rejects_define_with_line_feed:
  "acceptedBySpec (js ''--dart-define=FOO=a'' @ [10] @ js ''b'') \<and>
   fst (start exampleFs (js ''/srv/mcp'') 2000 (Some 4242)
          (exampleOptions\<lparr>additionalArgs := Some [js ''--dart-define=FOO=a'' @ [10] @ js ''b'']\<rparr>)
          (newFlutterProcessManager 1000)) =
     Inl (InvalidDartDefine (js ''--dart-define=FOO=a'' @ [10] @ js ''b''))"
  by (simp add: acceptedBySpec_def hasDartDefineForm_def dartDefineKey_def isIdentifier_def
        isIdentStart_def isIdentChar_def isLetter_def isDigit_def isLineTerminator_def
        start_def validateTarget_def validateFlavor_def validateAdditionalArgs_def
        matchesDartDefine_def ALLOWED_ARGS_def startsWith_def
        exampleOptions_def newFlutterProcessManager_def logger_def js_def Let_def)

text \<open>
  Claim C3, amended. An additional argument is accepted exactly when it is one of the
  seven flags of the allow-list or has the form \<open>--dart-define=KEY=VALUE\<close> with an
  identifier as key and a value that holds no line terminator: the validation of the
  arguments passes exactly when every argument is accepted. With an argument that is not
  accepted, \<open>start\<close> fails and neither spawns a subprocess nor attaches a handle; when no
  handle is attached and the target and the flavor pass their checks, the error is an
  invalid-argument error that names the first argument not accepted. When all arguments
  are accepted under the same conditions, \<open>start\<close> spawns the subprocess.
\<close>

theorem additionalArgs_accepted_iff:
  "(acceptedArg arg \<longleftrightarrow>
      (arg \<in> set ALLOWED_ARGS \<or>
       (\<exists>key v. arg = js ''--dart-define='' @ key @ 61 # v \<and> isIdentifier key \<and>
          list_all (\<lambda>c. \<not> isLineTerminator c) v))) \<and>
   (validateAdditionalArgs options = None \<longleftrightarrow>
      (\<forall>as. additionalArgs options = Some as \<longrightarrow> list_all acceptedArg as)) \<and>
   (additionalArgs options = Some as \<and> \<not> list_all acceptedArg as \<longrightarrow>
      (\<exists>e. fst (start fs wd now sp options m) = Inl e) \<and>
      spawnCalls (snd (start fs wd now sp options m)) = spawnCalls m \<and>
      process (snd (start fs wd now sp options m)) = process m) \<and>
   (additionalArgs options = Some as \<and> \<not> list_all acceptedArg as \<and> process m = None \<and>
    validateTarget fs wd options = None \<and> validateFlavor options = None \<longrightarrow>
      (\<exists>pre a post. as = pre @ a # post \<and> list_all acceptedArg pre \<and> \<not> acceptedArg a \<and>
         (fst (start fs wd now sp options m) = Inl (InvalidDartDefine a) \<or>
          fst (start fs wd now sp options m) = Inl (InvalidFlutterArgument a)))) \<and>
   (additionalArgs options = Some as \<and> list_all acceptedArg as \<and> process m = None \<and>
    validateTarget fs wd options = None \<and> validateFlavor options = None \<longrightarrow>
      (\<exists>fp. fst (start fs wd now sp options m) = Inr fp) \<and>
      spawnCalls (snd (start fs wd now sp options m)) =
        spawnCalls m @ [(js ''flutter'', buildArgs options, worktreePath options)])"
proof -
  have v: "validateAdditionalArgs options = None \<longleftrightarrow>
      (\<forall>as. additionalArgs options = Some as \<longrightarrow> list_all acceptedArg as)"
    by (cases "additionalArgs options") (simp_all add: validateAdditionalArgs_def checkArgs_None_iff)
  have fail: "additionalArgs options = Some as \<and> \<not> list_all acceptedArg as \<longrightarrow>
      (\<exists>e. fst (start fs wd now sp options m) = Inl e) \<and>
      spawnCalls (snd (start fs wd now sp options m)) = spawnCalls m \<and>
      process (snd (start fs wd now sp options m)) = process m"
  proof
    assume h: "additionalArgs options = Some as \<and> \<not> list_all acceptedArg as"
    then have "validateAdditionalArgs options \<noteq> None" using v by blast
    then obtain e where e: "validateAdditionalArgs options = Some e" by blast
    then show "(\<exists>e. fst (start fs wd now sp options m) = Inl e) \<and>
      spawnCalls (snd (start fs wd now sp options m)) = spawnCalls m \<and>
      process (snd (start fs wd now sp options m)) = process m"
      by (auto simp: start_def Let_def logger_def split: option.splits)
  qed
  have first: "additionalArgs options = Some as \<and> \<not> list_all acceptedArg as \<and> process m = None \<and>
    validateTarget fs wd options = None \<and> validateFlavor options = None \<longrightarrow>
      (\<exists>pre a post. as = pre @ a # post \<and> list_all acceptedArg pre \<and> \<not> acceptedArg a \<and>
         (fst (start fs wd now sp options m) = Inl (InvalidDartDefine a) \<or>
          fst (start fs wd now sp options m) = Inl (InvalidFlutterArgument a)))"
  proof
    assume h: "additionalArgs options = Some as \<and> \<not> list_all acceptedArg as \<and> process m = None \<and>
      validateTarget fs wd options = None \<and> validateFlavor options = None"
    then have st: "fst (start fs wd now sp options m) =
        (case checkArgs as of Some e \<Rightarrow> Inl e | None \<Rightarrow> fst (start fs wd now sp options m))"
      by (auto simp: start_def Let_def validateAdditionalArgs_def split: option.splits)
    from h checkArgs_first_refused [of as] obtain pre a post where
      p: "as = pre @ a # post" "list_all acceptedArg pre" "\<not> acceptedArg a"
         "checkArgs as = Some (InvalidDartDefine a) \<or> checkArgs as = Some (InvalidFlutterArgument a)"
      by blast
    from p(4) st have "fst (start fs wd now sp options m) = Inl (InvalidDartDefine a) \<or>
          fst (start fs wd now sp options m) = Inl (InvalidFlutterArgument a)"
      by auto
    with p show "\<exists>pre a post. as = pre @ a # post \<and> list_all acceptedArg pre \<and> \<not> acceptedArg a \<and>
         (fst (start fs wd now sp options m) = Inl (InvalidDartDefine a) \<or>
          fst (start fs wd now sp options m) = Inl (InvalidFlutterArgument a))"
      by blast
  qed
  have ok: "additionalArgs options = Some as \<and> list_all acceptedArg as \<and> process m = None \<and>
    validateTarget fs wd options = None \<and> validateFlavor options = None \<longrightarrow>
      (\<exists>fp. fst (start fs wd now sp options m) = Inr fp) \<and>
      spawnCalls (snd (start fs wd now sp options m)) =
        spawnCalls m @ [(js ''flutter'', buildArgs options, worktreePath options)]"
  proof
    assume h: "additionalArgs options = Some as \<and> list_all acceptedArg as \<and> process m = None \<and>
      validateTarget fs wd options = None \<and> validateFlavor options = None"
    then have "validateAdditionalArgs options = None" using v by simp
    with h show "(\<exists>fp. fst (start fs wd now sp options m) = Inr fp) \<and>
      spawnCalls (snd (start fs wd now sp options m)) =
        spawnCalls m @ [(js ''flutter'', buildArgs options, worktreePath options)]"
      by (auto simp: start_def Let_def logger_def split: option.splits)
  qed
  show ?thesis using acceptedArg_iff [of arg] v fail first ok by (intro conjI)
qed

lemmas arg_eval = acceptedArg_def hasDartDefineForm_def dartDefineKey_def dartDefineValue_def
  isIdentifier_def isIdentStart_def isIdentChar_def isLetter_def isDigit_def isLineTerminator_def
  matchesDartDefine_def ALLOWED_ARGS_def startsWith_def js_def

theorem additionalArgs_accepted_iff_witness:
  "additionalArgs (exampleOptions\<lparr>additionalArgs :=
      Some [js ''--debug'', js ''--dart-define=FOO=bar'', js ''--dart-define=1FOO=bar'']\<rparr>) =
     Some [js ''--debug'', js ''--dart-define=FOO=bar'', js ''--dart-define=1FOO=bar''] \<and>
   \<not> list_all acceptedArg
       [js ''--debug'', js ''--dart-define=FOO=bar'', js ''--dart-define=1FOO=bar''] \<and>
   list_all acceptedArg [js ''--debug'', js ''--dart-define=FOO=bar''] \<and>
   process (newFlutterProcessManager 1000) = None \<and>
   validateTarget exampleFs (js ''/srv/mcp'') (exampleOptions\<lparr>additionalArgs :=
      Some [js ''--debug'', js ''--dart-define=FOO=bar'', js ''--dart-define=1FOO=bar'']\<rparr>) = None \<and>
   validateFlavor (exampleOptions\<lparr>additionalArgs :=
      Some [js ''--debug'', js ''--dart-define=FOO=bar'', js ''--dart-define=1FOO=bar'']\<rparr>) = None \<and>
   fst (start exampleFs (js ''/srv/mcp'') 2000 (Some 4242)
          (exampleOptions\<lparr>additionalArgs :=
             Some [js ''--debug'', js ''--dart-define=FOO=bar'', js ''--dart-define=1FOO=bar'']\<rparr>)
          (newFlutterProcessManager 1000)) =
     Inl (InvalidDartDefine (js ''--dart-define=1FOO=bar'')) \<and>
   spawnCalls (snd (start exampleFs (js ''/srv/mcp'') 2000 (Some 4242)
          (exampleOptions\<lparr>additionalArgs :=
             Some [js ''--debug'', js ''--dart-define=FOO=bar'', js ''--dart-define=1FOO=bar'']\<rparr>)
          (newFlutterProcessManager 1000))) = [] \<and>
   fst (start exampleFs (js ''/srv/mcp'') 2000 (Some 4242)
          (exampleOptions\<lparr>additionalArgs := Some [js ''--dangerous=$(rm -rf /)'']\<rparr>)
          (newFlutterProcessManager 1000)) =
     Inl (InvalidFlutterArgument (js ''--dangerous=$(rm -rf /)''))"
proof -
  let ?as = "[js ''--debug'', js ''--dart-define=FOO=bar'', js ''--dart-define=1FOO=bar'']"
  let ?o = "exampleOptions\<lparr>additionalArgs := Some ?as\<rparr>"
  have h1: "additionalArgs ?o = Some ?as" by simp
  have h2: "\<not> list_all acceptedArg ?as" by (simp add: arg_eval)
  have h3: "list_all acceptedArg [js ''--debug'', js ''--dart-define=FOO=bar'']"
    by (simp add: arg_eval)
  have h4: "process (newFlutterProcessManager 1000) = None"
    by (simp add: newFlutterProcessManager_def)
  have h5: "validateTarget exampleFs (js ''/srv/mcp'') ?o = None"
    by (simp add: validateTarget_def exampleOptions_def)
  have h6: "validateFlavor ?o = None"
    by (simp add: validateFlavor_def exampleOptions_def)
  have c: "checkArgs ?as = Some (InvalidDartDefine (js ''--dart-define=1FOO=bar''))"
    by (simp add: arg_eval)
  have r1: "fst (start exampleFs (js ''/srv/mcp'') 2000 (Some 4242) ?o
              (newFlutterProcessManager 1000)) =
            Inl (InvalidDartDefine (js ''--dart-define=1FOO=bar''))"
    using h4 h5 h6 c by (simp add: start_def Let_def validateAdditionalArgs_def)
  note third = additionalArgs_accepted_iff
      [of "js ''--debug''" ?o ?as exampleFs "js ''/srv/mcp''" 2000 "Some 4242"
          "newFlutterProcessManager 1000",
       THEN conjunct2, THEN conjunct2, THEN conjunct1]
  from third h1 h2
  have e1: "spawnCalls (snd (start exampleFs (js ''/srv/mcp'') 2000 (Some 4242) ?o
              (newFlutterProcessManager 1000))) = spawnCalls (newFlutterProcessManager 1000)"
    by blast
  have e2: "spawnCalls (newFlutterProcessManager 1000) = []"
    by (simp add: newFlutterProcessManager_def)
  from e1 e2
  have r2: "spawnCalls (snd (start exampleFs (js ''/srv/mcp'') 2000 (Some 4242) ?o
              (newFlutterProcessManager 1000))) = []"
    by (rule trans)
  have c3: "checkArgs [js ''--dangerous=$(rm -rf /)''] =
              Some (InvalidFlutterArgument (js ''--dangerous=$(rm -rf /)''))"
    by (simp add: arg_eval)
  have r3: "fst (start exampleFs (js ''/srv/mcp'') 2000 (Some 4242)
          (exampleOptions\<lparr>additionalArgs := Some [js ''--dangerous=$(rm -rf /)'']\<rparr>)
          (newFlutterProcessManager 1000)) =
     Inl (InvalidFlutterArgument (js ''--dangerous=$(rm -rf /)''))"
    using h4 c3
    by (simp add: start_def Let_def validateAdditionalArgs_def validateTarget_def
          validateFlavor_def exampleOptions_def)
  show ?thesis using h1 h2 h3 h4 h5 h6 r1 r2 r3 by (intro conjI)
qed

subsection \<open>Output handling\<close>

lemma notify_fields:
  "logBuffer (notifySubscribers subs ln m) = logBuffer m"
  "logSubscribers (notifySubscribers subs ln m) = logSubscribers m"
  "flutterProcess (notifySubscribers subs ln m) = flutterProcess m"
  "pendingTimers (notifySubscribers subs ln m) = pendingTimers m"
  "spawnCalls (notifySubscribers subs ln m) = spawnCalls m"
  by (induction subs arbitrary: m; simp add: Let_def split: option.splits)+

lemma notify_delivered:
  "delivered (notifySubscribers subs ln m) = delivered m @ callsFor subs ln"
  by (induction subs arbitrary: m) (simp_all add: callsFor_def Let_def split: option.splits)

lemma notify_logged:
  "logged (notifySubscribers subs ln m) = logged m @ errorsFor subs ln"
  by (induction subs arbitrary: m) (simp_all add: errorsFor_def Let_def split: option.splits)

lemma detect_fields:
  "logBuffer (detectStatusChanges ln m) = logBuffer m"
  "logSubscribers (detectStatusChanges ln m) = logSubscribers m"
  "delivered (detectStatusChanges ln m) = delivered m"
  "logged (detectStatusChanges ln m) = logged m"
  "spawnCalls (detectStatusChanges ln m) = spawnCalls m"
  by (simp_all add: detectStatusChanges_def split: option.splits)

lemma detect_status:
  "flutterProcess (detectStatusChanges ln m) =
     (if isReloadMarker ln then map_option (\<lambda>fp. fp\<lparr>status := HotReloading\<rparr>) (flutterProcess m)
      else flutterProcess m)"
  "pendingTimers (detectStatusChanges ln m) =
     (if isReloadMarker ln \<and> flutterProcess m \<noteq> None then pendingTimers m + 1
      else pendingTimers m)"
  by (auto simp: detectStatusChanges_def isReloadMarker_def split: option.splits)

lemma processLine_fields:
  "logBuffer (processLine now ln m) =
     (if isBlank ln then logBuffer m else append_entry now ln (logBuffer m))"
  "logSubscribers (processLine now ln m) = logSubscribers m"
  "delivered (processLine now ln m) =
     (if isBlank ln then delivered m else delivered m @ callsFor (logSubscribers m) ln)"
  "logged (processLine now ln m) =
     (if isBlank ln then logged m else logged m @ errorsFor (logSubscribers m) ln)"
  "spawnCalls (processLine now ln m) = spawnCalls m"
  "flutterProcess (processLine now ln m) =
     (if \<not> isBlank ln \<and> isReloadMarker ln
      then map_option (\<lambda>fp. fp\<lparr>status := HotReloading\<rparr>) (flutterProcess m)
      else flutterProcess m)"
  "pendingTimers (processLine now ln m) =
     (if \<not> isBlank ln \<and> isReloadMarker ln \<and> flutterProcess m \<noteq> None
      then pendingTimers m + 1 else pendingTimers m)"
  by (simp_all add: processLine_def isBlank_def Let_def detect_fields detect_status
        notify_fields notify_delivered notify_logged)

lemma fold_logBuffer:
  "logBuffer (fold (processLine now) lns m) =
     appendLines (map (Pair now) (filter (\<lambda>ln. \<not> isBlank ln) lns)) (logBuffer m)"
  by (induction lns arbitrary: m) (simp_all add: processLine_fields appendLines_def)

lemma fold_logSubscribers:
  "logSubscribers (fold (processLine now) lns m) = logSubscribers m"
  by (induction lns arbitrary: m) (simp_all add: processLine_fields)

lemma fold_delivered:
  "delivered (fold (processLine now) lns m) =
     delivered m @ concat (map (callsFor (logSubscribers m)) (filter (\<lambda>ln. \<not> isBlank ln) lns))"
  by (induction lns arbitrary: m) (simp_all add: processLine_fields)

lemma fold_logged:
  "logged (fold (processLine now) lns m) =
     logged m @ concat (map (errorsFor (logSubscribers m)) (filter (\<lambda>ln. \<not> isBlank ln) lns))"
  by (induction lns arbitrary: m) (simp_all add: processLine_fields)

lemma fold_spawnCalls:
  "spawnCalls (fold (processLine now) lns m) = spawnCalls m"
  by (induction lns arbitrary: m) (simp_all add: processLine_fields)

lemma fold_flutterProcess:
  "flutterProcess (fold (processLine now) lns m) =
     (if list_ex isReloadMarker (filter (\<lambda>ln. \<not> isBlank ln) lns)
      then map_option (\<lambda>fp. fp\<lparr>status := HotReloading\<rparr>) (flutterProcess m)
      else flutterProcess m)"
  by (induction lns arbitrary: m)
     (auto simp: processLine_fields option.map_comp o_def split: option.splits)

lemma fold_pendingTimers:
  "pendingTimers (fold (processLine now) lns m) =
     (if flutterProcess m = None then pendingTimers m
      else pendingTimers m + length (filter isReloadMarker (filter (\<lambda>ln. \<not> isBlank ln) lns)))"
  by (induction lns arbitrary: m) (auto simp: processLine_fields)


lemma fold_filter_lines:
  "fold f (filter P xs) m = fold (\<lambda>x. if P x then f x else id) xs m"
  by (induction xs arbitrary: m) simp_all

text \<open>
  Claim C7, as stated, fails: the chunk \<open>a\n\nb\<close> holds three lines, the second one
  empty; the empty line is neither appended to the buffer nor given to the subscriber.
\<close>

theorem handleOutput_skips_blank_lines:
  "splitOn 10 (js ''a'' @ [10, 10] @ js ''b'') = [js ''a'', [], js ''b''] \<and>
   map line (logs (logBuffer (handleOutput 5 (js ''a'' @ [10, 10] @ js ''b'')
      (subscribeToLogs exampleQuiet (newFlutterProcessManager 1000))))) = [js ''a'', js ''b''] \<and>
   delivered (handleOutput 5 (js ''a'' @ [10, 10] @ js ''b'')
      (subscribeToLogs exampleQuiet (newFlutterProcessManager 1000))) =
     [(2, js ''a''), (2, js ''b'')]"
  by (simp add: handleOutput_def processLine_def trim_def isWhiteSpace_def isLineTerminator_def
        detectStatusChanges_def subscribeToLogs_def exampleQuiet_def newFlutterProcessManager_def
        append_entry_def newLogBuffer_def js_def Let_def)

text \<open>
  Claim C7, amended. The output handler splits a chunk at line feeds and processes, in
  order, each line that holds something other than white space: the line is appended to
  the buffer, then every subscriber registered is called with it, then it is inspected
  for a reload marker. After the chunk, the buffer has had exactly those lines appended;
  every subscriber has been called with every one of them, in order, whether or not a
  subscriber threw; each throw has left one error in the log; the subscribers are as
  before; and each reload marker has set the status to hot-reloading and one timeout.
\<close>

theorem handleOutput_processes_nonblank_lines:
  "handleOutput now data m =
     fold (\<lambda>ln m'. detectStatusChanges ln
                      (notifySubscribers (logSubscribers m') ln
                         (m'\<lparr>logBuffer := append_entry now ln (logBuffer m')\<rparr>)))
          (processedLines data) m \<and>
   logBuffer (handleOutput now data m) =
     appendLines (map (Pair now) (processedLines data)) (logBuffer m) \<and>
   delivered (handleOutput now data m) =
     delivered m @ concat (map (callsFor (logSubscribers m)) (processedLines data)) \<and>
   logged (handleOutput now data m) =
     logged m @ concat (map (errorsFor (logSubscribers m)) (processedLines data)) \<and>
   logSubscribers (handleOutput now data m) = logSubscribers m \<and>
   flutterProcess (handleOutput now data m) =
     (if list_ex isReloadMarker (processedLines data)
      then map_option (\<lambda>fp. fp\<lparr>status := HotReloading\<rparr>) (flutterProcess m)
      else flutterProcess m) \<and>
   pendingTimers (handleOutput now data m) =
     (if flutterProcess m = None then pendingTimers m
      else pendingTimers m + length (filter isReloadMarker (processedLines data)))"
proof -
  have step: "(\<lambda>ln. if \<not> isBlank ln
                 then (\<lambda>m'. detectStatusChanges ln
                      (notifySubscribers (logSubscribers m') ln
                         (m'\<lparr>logBuffer := append_entry now ln (logBuffer m')\<rparr>)))
                 else id) = processLine now"
    by (rule ext, rule ext) (simp add: processLine_def isBlank_def Let_def)
  have a: "handleOutput now data m =
     fold (\<lambda>ln m'. detectStatusChanges ln
                      (notifySubscribers (logSubscribers m') ln
                         (m'\<lparr>logBuffer := append_entry now ln (logBuffer m')\<rparr>)))
          (processedLines data) m"
    unfolding processedLines_def fold_filter_lines step handleOutput_def ..
  have b: "logBuffer (handleOutput now data m) =
     appendLines (map (Pair now) (processedLines data)) (logBuffer m)"
    by (simp add: handleOutput_def processedLines_def fold_logBuffer)
  have c: "delivered (handleOutput now data m) =
     delivered m @ concat (map (callsFor (logSubscribers m)) (processedLines data))"
    by (simp add: handleOutput_def processedLines_def fold_delivered)
  have d: "logged (handleOutput now data m) =
     logged m @ concat (map (errorsFor (logSubscribers m)) (processedLines data))"
    by (simp add: handleOutput_def processedLines_def fold_logged)
  have e: "logSubscribers (handleOutput now data m) = logSubscribers m"
    by (simp add: handleOutput_def fold_logSubscribers)
  have f: "flutterProcess (handleOutput now data m) =
     (if list_ex isReloadMarker (processedLines data)
      then map_option (\<lambda>fp. fp\<lparr>status := HotReloading\<rparr>) (flutterProcess m)
      else flutterProcess m)"
    by (simp add: handleOutput_def processedLines_def fold_flutterProcess)
  have g: "pendingTimers (handleOutput now data m) =
     (if flutterProcess m = None then pendingTimers m
      else pendingTimers m + length (filter isReloadMarker (processedLines data)))"
    by (simp add: handleOutput_def processedLines_def fold_pendingTimers)
  from a b c d e f g show ?thesis by (intro conjI)
qed

theorem handleOutput_processes_nonblank_lines_witness:
  "processedLines (js ''Syncing files'' @ [10, 32, 10] @ js ''Reloaded 1 of 5 libraries'' @ [10]) =
     [js ''Syncing files'', js ''Reloaded 1 of 5 libraries''] \<and>
   map line (logs (logBuffer (handleOutput 2100
        (js ''Syncing files'' @ [10, 32, 10] @ js ''Reloaded 1 of 5 libraries'' @ [10])
        exampleSubscribed))) =
     [js ''Syncing files'', js ''Reloaded 1 of 5 libraries''] \<and>
   delivered (handleOutput 2100
        (js ''Syncing files'' @ [10, 32, 10] @ js ''Reloaded 1 of 5 libraries'' @ [10])
        exampleSubscribed) =
     [(1, js ''Syncing files''), (2, js ''Syncing files''),
      (1, js ''Reloaded 1 of 5 libraries''), (2, js ''Reloaded 1 of 5 libraries'')] \<and>
   logged (handleOutput 2100
        (js ''Syncing files'' @ [10, 32, 10] @ js ''Reloaded 1 of 5 libraries'' @ [10])
        exampleSubscribed) =
     logged exampleSubscribed @
       [(ERROR, ''Error in log subscriber''), (ERROR, ''Error in log subscriber'')] \<and>
   pendingTimers (handleOutput 2100
        (js ''Syncing files'' @ [10, 32, 10] @ js ''Reloaded 1 of 5 libraries'' @ [10])
        exampleSubscribed) = 1"
proof -
  let ?d = "js ''Syncing files'' @ [10, 32, 10] @ js ''Reloaded 1 of 5 libraries'' @ [10]"
  have p: "processedLines ?d = [js ''Syncing files'', js ''Reloaded 1 of 5 libraries'']"
    by (simp add: processedLines_def isBlank_def trim_def isWhiteSpace_def isLineTerminator_def
          js_def)
  have subs: "logSubscribers exampleSubscribed = [exampleThrowing, exampleQuiet]"
    by (simp add: exampleSubscribed_def subscribeToLogs_def exampleThrowing_def exampleQuiet_def
          exampleRunning_def start_def Let_def validateTarget_def validateFlavor_def
          validateAdditionalArgs_def exampleOptions_def newFlutterProcessManager_def logger_def)
  have st: "logBuffer exampleSubscribed = newLogBuffer 1000 \<and> delivered exampleSubscribed = [] \<and>
            pendingTimers exampleSubscribed = 0 \<and> flutterProcess exampleSubscribed \<noteq> None"
    by (simp add: exampleSubscribed_def subscribeToLogs_def exampleThrowing_def exampleQuiet_def
          exampleRunning_def start_def Let_def validateTarget_def validateFlavor_def
          validateAdditionalArgs_def exampleOptions_def newFlutterProcessManager_def logger_def)
  have mk: "\<not> isReloadMarker (js ''Syncing files'') \<and> isReloadMarker (js ''Reloaded 1 of 5 libraries'')"
    by (simp add: isReloadMarker_def js_def)
  show ?thesis
    using handleOutput_processes_nonblank_lines [of 2100 ?d exampleSubscribed, THEN conjunct2]
      p subs st mk
    by (simp add: callsFor_def errorsFor_def exampleThrowing_def exampleQuiet_def
          appendLines_def append_entry_def newLogBuffer_def)
qed


end
